theory Spec2Isabelle
  imports Complex_Main
begin

section \<open>Values of the Python program\<close>

text \<open>
  The tracker computes with \<open>numpy.float64\<close>. Finite values are idealised as reals
  (rounding and overflow are not modelled); the two special results that the program can
  really produce, an infinity from \<open>x / 0\<close> and a NaN from \<open>0 / 0\<close>, are kept as values of
  their own, because \<open>numpy\<close> returns them (with a warning) where plain Python would raise.
\<close>

datatype fp = Fin real | PosInf | NegInf | NaN

text \<open>\<open>numpy.float64.__truediv__\<close> on two finite operands: division by zero does not raise.\<close>

definition np_div :: "real \<Rightarrow> real \<Rightarrow> fp" where
  "np_div a b =
     (if b = 0 then (if a = 0 then NaN else if 0 < a then PosInf else NegInf)
      else Fin (a / b))"

fun fp_add :: "fp \<Rightarrow> fp \<Rightarrow> fp" where
  "fp_add (Fin a) (Fin b) = Fin (a + b)"
| "fp_add NaN y = NaN"
| "fp_add x NaN = NaN"
| "fp_add PosInf NegInf = NaN"
| "fp_add NegInf PosInf = NaN"
| "fp_add PosInf y = PosInf"
| "fp_add NegInf y = NegInf"
| "fp_add x PosInf = PosInf"
| "fp_add x NegInf = NegInf"

text \<open>\<open>x / 2.0\<close>.\<close>

fun fp_half :: "fp \<Rightarrow> fp" where
  "fp_half (Fin a) = Fin (a / 2)"
| "fp_half x = x"

text \<open>\<open>x < t\<close> and \<open>x >= t\<close> against a finite \<open>t\<close>; every comparison with NaN is false.\<close>

fun fp_lt :: "fp \<Rightarrow> real \<Rightarrow> bool" where
  "fp_lt (Fin a) t = (a < t)"
| "fp_lt NegInf t = True"
| "fp_lt PosInf t = False"
| "fp_lt NaN t = False"

fun fp_ge :: "fp \<Rightarrow> real \<Rightarrow> bool" where
  "fp_ge (Fin a) t = (t \<le> a)"
| "fp_ge PosInf t = True"
| "fp_ge NegInf t = False"
| "fp_ge NaN t = False"

datatype py_error = ValueError string | IndexError | ZeroDivisionError

fun error_text :: "py_error \<Rightarrow> string" where
  "error_text (ValueError m) = m"
| "error_text IndexError = ''list index out of range''"
| "error_text ZeroDivisionError = ''float division by zero''"

section \<open>Configuration (config.py)\<close>

text \<open>
  The fields the tracker and the notification manager read, and the three the constructor
  validates. The float fields are reals: a NaN or an infinity fails the range test of
  \<open>__post_init__\<close> like any other value outside \<open>[0, 1]\<close>. Type hints are not enforced by
  a dataclass, so the integer fields range over all of \<open>int\<close> and the index lists over
  all lists.
\<close>

record configuration =
  EAR_THRESHOLD :: real
  CONSECUTIVE_FRAMES :: int
  MAX_FACES :: int
  MIN_DETECTION_CONFIDENCE :: real
  MIN_TRACKING_CONFIDENCE :: real
  MAX_FRAME_SKIP :: int
  MIN_BLINKS_PER_MINUTE :: int
  NOTIFICATION_CHECK_INTERVAL :: int
  LEFT_EYE_INDICES :: "int list"
  RIGHT_EYE_INDICES :: "int list"

definition default_configuration :: configuration where
  "default_configuration =
     \<lparr> EAR_THRESHOLD = 21 / 100,
       CONSECUTIVE_FRAMES = 2,
       MAX_FACES = 1,
       MIN_DETECTION_CONFIDENCE = 1 / 2,
       MIN_TRACKING_CONFIDENCE = 1 / 2,
       MAX_FRAME_SKIP = 0,
       MIN_BLINKS_PER_MINUTE = 15,
       NOTIFICATION_CHECK_INTERVAL = 60000,
       LEFT_EYE_INDICES = [33, 160, 158, 133, 153, 144],
       RIGHT_EYE_INDICES = [362, 385, 387, 263, 373, 380] \<rparr>"

text \<open>\<open>Configuration.__post_init__\<close>: the constructor returns the object or raises.\<close>

definition post_init :: "configuration \<Rightarrow> py_error + configuration" where
  "post_init c =
     (if \<not> (0 \<le> EAR_THRESHOLD c \<and> EAR_THRESHOLD c \<le> 1)
      then Inl (ValueError ''EAR_THRESHOLD must be between 0.0 and 1.0'')
      else if \<not> (0 \<le> MIN_DETECTION_CONFIDENCE c \<and> MIN_DETECTION_CONFIDENCE c \<le> 1)
      then Inl (ValueError ''MIN_DETECTION_CONFIDENCE must be between 0.0 and 1.0'')
      else if \<not> (0 \<le> MIN_TRACKING_CONFIDENCE c \<and> MIN_TRACKING_CONFIDENCE c \<le> 1)
      then Inl (ValueError ''MIN_TRACKING_CONFIDENCE must be between 0.0 and 1.0'')
      else Inr c)"

section \<open>EAR calculator (eye_tracker.py)\<close>

type_synonym point = "int \<times> int"

text \<open>
  \<open>_euclidean_dist\<close>: \<open>np.linalg.norm(np.array(pt1) - np.array(pt2))\<close>, the component-wise
  difference of the two integer pairs and the 2-norm of the result.
\<close>

definition array_sub :: "point \<Rightarrow> point \<Rightarrow> point" where
  "array_sub p q = (fst p - fst q, snd p - snd q)"

definition linalg_norm :: "point \<Rightarrow> real" where
  "linalg_norm v = sqrt (real_of_int (fst v * fst v + snd v * snd v))"

definition euclidean_dist :: "point \<Rightarrow> point \<Rightarrow> real" where
  "euclidean_dist pt1 pt2 = linalg_norm (array_sub pt1 pt2)"

text \<open>
  \<open>_calculate_ear\<close>. The list is indexed at 1, 5, 2, 4, 0, 3: a list shorter than six
  points raises \<open>IndexError\<close>, and a longer one is read at its first six. The division
  is numpy's, so a zero denominator gives an infinity or a NaN and no exception.
\<close>

definition calculate_ear :: "point list \<Rightarrow> py_error + fp" where
  "calculate_ear eye_landmarks =
     (if length eye_landmarks < 6 then Inl IndexError
      else
        (let A = euclidean_dist (eye_landmarks ! 1) (eye_landmarks ! 5);
             B = euclidean_dist (eye_landmarks ! 2) (eye_landmarks ! 4);
             C = euclidean_dist (eye_landmarks ! 0) (eye_landmarks ! 3)
         in Inr (np_div (A + B) (2 * C))))"

text \<open>
  The distance the specification names: the Euclidean metric of the plane, taken from the
  library (the plane as the complex numbers).
\<close>

definition plane :: "point \<Rightarrow> complex" where
  "plane p = Complex (real_of_int (fst p)) (real_of_int (snd p))"

definition spec_dist :: "point \<Rightarrow> point \<Rightarrow> real" where
  "spec_dist p q = dist (plane p) (plane q)"

section \<open>Tracker state and observers (eye_tracker.py)\<close>

record eye_tracking_data =
  blink_count :: int
  left_ear :: fp
  right_ear :: fp
  avg_ear :: fp
  left_eye_landmarks :: "point list option"
  right_eye_landmarks :: "point list option"

text \<open>
  An observer is an object with two callbacks; each call either returns or raises an
  \<open>Exception\<close>. The observer's identity stands for the object.
\<close>

datatype outcome = Returns | Raises string

record observer =
  obs_id :: nat
  on_blink_detected :: "int \<Rightarrow> outcome"
  on_eye_data_updated :: "fp \<Rightarrow> fp \<Rightarrow> fp \<Rightarrow> outcome"

text \<open>
  What the tracker does to the outside: the callbacks it invokes and the lines it logs,
  in order.
\<close>

datatype event =
    Blink_callback nat int
  | Eye_data_callback nat fp fp fp
  | Log_warning string
  | Log_error string

record eye_tracker =
  data :: eye_tracking_data
  frame_counter :: int
  observers :: "observer list"
  frame_skip_counter :: int
  last_valid_landmarks :: "(point list \<times> point list) option"
  trace :: "event list"

text \<open>\<open>EyeTracker.__init__\<close>, after the detector has been created.\<close>

definition init_tracker :: eye_tracker where
  "init_tracker =
     \<lparr> data = \<lparr> blink_count = 0, left_ear = Fin 0, right_ear = Fin 0, avg_ear = Fin 0,
                left_eye_landmarks = None, right_eye_landmarks = None \<rparr>,
       frame_counter = 0,
       observers = [],
       frame_skip_counter = 0,
       last_valid_landmarks = None,
       trace = [] \<rparr>"

definition add_observer :: "observer \<Rightarrow> eye_tracker \<Rightarrow> eye_tracker" where
  "add_observer ob s =
     (if obs_id ob \<in> obs_id ` set (observers s) then s
      else s\<lparr>observers := observers s @ [ob]\<rparr>)"

definition remove_observer :: "observer \<Rightarrow> eye_tracker \<Rightarrow> eye_tracker" where
  "remove_observer ob s = s\<lparr>observers := filter (\<lambda>x. obs_id x \<noteq> obs_id ob) (observers s)\<rparr>"

text \<open>
  \<open>_notify_blink_detected\<close> and \<open>_notify_eye_data_updated\<close>: the loop over the snapshot
  of the observers, each call inside its own \<open>try\<close>; the \<open>except\<close> branch logs a warning
  and the loop goes on.
\<close>

fun blink_loop :: "observer list \<Rightarrow> int \<Rightarrow> event list" where
  "blink_loop [] n = []"
| "blink_loop (ob # obs) n =
     (case on_blink_detected ob n of
        Returns \<Rightarrow> [Blink_callback (obs_id ob) n]
      | Raises e \<Rightarrow> [Blink_callback (obs_id ob) n, Log_warning e]) @ blink_loop obs n"

definition notify_blink_detected :: "eye_tracker \<Rightarrow> eye_tracker" where
  "notify_blink_detected s =
     s\<lparr>trace := trace s @ blink_loop (observers s) (blink_count (data s))\<rparr>"

fun eye_data_loop :: "observer list \<Rightarrow> fp \<Rightarrow> fp \<Rightarrow> fp \<Rightarrow> event list" where
  "eye_data_loop [] l r a = []"
| "eye_data_loop (ob # obs) l r a =
     (case on_eye_data_updated ob l r a of
        Returns \<Rightarrow> [Eye_data_callback (obs_id ob) l r a]
      | Raises e \<Rightarrow> [Eye_data_callback (obs_id ob) l r a, Log_warning e])
     @ eye_data_loop obs l r a"

definition notify_eye_data_updated :: "eye_tracker \<Rightarrow> eye_tracker" where
  "notify_eye_data_updated s =
     s\<lparr>trace := trace s @ eye_data_loop (observers s) (left_ear (data s))
                            (right_ear (data s)) (avg_ear (data s))\<rparr>"

section \<open>Blink detector (eye_tracker.py)\<close>

text \<open>
  \<open>_update_blink_detection\<close>, evaluated on the \<open>avg_ear\<close> that \<open>process_frame\<close> has just
  stored. The count is incremented before the observers are notified, so they are told
  the new count.
\<close>

definition update_blink_detection :: "configuration \<Rightarrow> eye_tracker \<Rightarrow> eye_tracker" where
  "update_blink_detection cfg s =
     (if fp_lt (avg_ear (data s)) (EAR_THRESHOLD cfg)
      then s\<lparr>frame_counter := frame_counter s + 1\<rparr>
      else
        (let s1 = (if CONSECUTIVE_FRAMES cfg \<le> frame_counter s
                   then notify_blink_detected
                          (s\<lparr>data := (data s)\<lparr>blink_count := blink_count (data s) + 1\<rparr>\<rparr>)
                   else s)
         in s1\<lparr>frame_counter := 0\<rparr>))"

text \<open>One fresh sample through the detector, and a stream of them.\<close>

definition feed_sample :: "configuration \<Rightarrow> fp \<Rightarrow> eye_tracker \<Rightarrow> eye_tracker" where
  "feed_sample cfg x s = update_blink_detection cfg (s\<lparr>data := (data s)\<lparr>avg_ear := x\<rparr>\<rparr>)"

fun feed_samples :: "configuration \<Rightarrow> fp list \<Rightarrow> eye_tracker \<Rightarrow> eye_tracker" where
  "feed_samples cfg [] s = s"
| "feed_samples cfg (x # xs) s = feed_samples cfg xs (feed_sample cfg x s)"

section \<open>Frame processing (eye_tracker.py)\<close>

text \<open>
  What one call of \<open>process_frame\<close> receives from outside the tracker: the result of the
  colour conversion, the detector and the extraction of the two eye polygons (an
  exception anywhere in these, no face, or the two lists of pixel points), and whether
  drawing the overlays returns or raises.
\<close>

datatype provider_result =
    Provider_raises string
  | No_detection
  | Detection "point list" "point list"

record tick =
  provider :: provider_result
  overlay :: outcome

text \<open>The \<open>except Exception\<close> of \<open>process_frame\<close>: log and return what has been done so far.\<close>

definition frame_error :: "string \<Rightarrow> eye_tracker \<Rightarrow> eye_tracker" where
  "frame_error e s = s\<lparr>trace := trace s @ [Log_error e]\<rparr>"

text \<open>The last two statements of the \<open>try\<close> block: \<open>_draw_overlays\<close>, then the observers.\<close>

definition draw_and_notify :: "tick \<Rightarrow> eye_tracker \<Rightarrow> eye_tracker" where
  "draw_and_notify t s =
     (case overlay t of
        Raises e \<Rightarrow> frame_error e s
      | Returns \<Rightarrow> notify_eye_data_updated s)"

text \<open>The scheduler's test, on the counter as it is before the call increments it.\<close>

definition should_process :: "configuration \<Rightarrow> eye_tracker \<Rightarrow> bool" where
  "should_process cfg s = (MAX_FRAME_SKIP cfg \<le> frame_skip_counter s + 1)"

definition process_frame :: "configuration \<Rightarrow> tick \<Rightarrow> eye_tracker \<Rightarrow> eye_tracker" where
  "process_frame cfg t s =
     (let s1 = s\<lparr>frame_skip_counter := frame_skip_counter s + 1\<rparr>
      in if MAX_FRAME_SKIP cfg \<le> frame_skip_counter s1
         then
           (let s2 = s1\<lparr>frame_skip_counter := 0\<rparr>
            in case provider t of
                 Provider_raises e \<Rightarrow> frame_error e s2
               | Detection left_eye right_eye \<Rightarrow>
                   (let s3 = s2\<lparr>last_valid_landmarks := Some (left_eye, right_eye),
                                 data := (data s2)\<lparr>left_eye_landmarks := Some left_eye,
                                                   right_eye_landmarks := Some right_eye\<rparr>\<rparr>
                    in case calculate_ear left_eye of
                         Inl e \<Rightarrow> frame_error (error_text e) s3
                       | Inr l \<Rightarrow>
                           (let s4 = s3\<lparr>data := (data s3)\<lparr>left_ear := l\<rparr>\<rparr>
                            in case calculate_ear right_eye of
                                 Inl e \<Rightarrow> frame_error (error_text e) s4
                               | Inr r \<Rightarrow>
                                   (let s5 = s4\<lparr>data := (data s4)\<lparr>right_ear := r\<rparr>\<rparr>;
                                        s6 = s5\<lparr>data := (data s5)
                                               \<lparr>avg_ear := fp_half (fp_add (left_ear (data s5))
                                                                          (right_ear (data s5)))\<rparr>\<rparr>
                                    in draw_and_notify t (update_blink_detection cfg s6))))
               | No_detection \<Rightarrow>
                   (case last_valid_landmarks s2 of
                      Some (left_eye, right_eye) \<Rightarrow>
                        draw_and_notify t
                          (s2\<lparr>data := (data s2)\<lparr>left_eye_landmarks := Some left_eye,
                                                right_eye_landmarks := Some right_eye\<rparr>\<rparr>)
                    | None \<Rightarrow> draw_and_notify t s2))
         else draw_and_notify t s1)"

text \<open>A sequence of ticks, and the scheduler's decision at each of them.\<close>

fun run_frames :: "configuration \<Rightarrow> tick list \<Rightarrow> eye_tracker \<Rightarrow> eye_tracker" where
  "run_frames cfg [] s = s"
| "run_frames cfg (t # ts) s = run_frames cfg ts (process_frame cfg t s)"

fun detection_ticks :: "configuration \<Rightarrow> tick list \<Rightarrow> eye_tracker \<Rightarrow> bool list" where
  "detection_ticks cfg [] s = []"
| "detection_ticks cfg (t # ts) s =
     should_process cfg s # detection_ticks cfg ts (process_frame cfg t s)"

text \<open>The blink counts the observers have been told, in the order of the calls.\<close>

fun blink_counts :: "event list \<Rightarrow> int list" where
  "blink_counts [] = []"
| "blink_counts (Blink_callback i n # es) = n # blink_counts es"
| "blink_counts (e # es) = blink_counts es"

section \<open>Blink-rate monitor (notification_manager.py)\<close>

text \<open>
  Instants are readings of \<open>datetime.now()\<close> in seconds and durations are their differences,
  as reals. A call of \<open>check_blink_rate_and_notify\<close> reads the clock once, and
  \<open>_send_low_blink_notification\<close> reads it again when it is reached; both readings, the
  count and the behaviour of the desktop notification are what the call receives from
  outside. Every call of \<open>notification.notify\<close> is recorded with the clock reading of the
  enclosing \<open>_send_low_blink_notification\<close> and the rate it reports.
\<close>

datatype sink_event = Notified real real | Notify_failed real string

record notification_manager =
  last_blink_count :: int
  last_check_time :: real
  notification_cooldown :: real
  last_notification_time :: "real option"
  sink_log :: "sink_event list"

record check_call =
  current_blink_count :: int
  clock_check :: real
  clock_send :: real
  sink :: outcome

text \<open>\<open>NotificationManager.__init__\<close> at instant \<open>now\<close>; the cooldown is five minutes.\<close>

definition init_manager :: "real \<Rightarrow> notification_manager" where
  "init_manager now =
     \<lparr> last_blink_count = 0, last_check_time = now, notification_cooldown = 300,
       last_notification_time = None, sink_log = [] \<rparr>"

definition send_low_blink_notification ::
    "check_call \<Rightarrow> real \<Rightarrow> notification_manager \<Rightarrow> notification_manager" where
  "send_low_blink_notification c current_rate m =
     (let current_time = clock_send c
      in if (case last_notification_time m of
               None \<Rightarrow> False
             | Some t \<Rightarrow> current_time - t < notification_cooldown m)
         then m
         else
           (case sink c of
              Returns \<Rightarrow>
                m\<lparr>last_notification_time := Some current_time,
                  sink_log := sink_log m @ [Notified current_time current_rate]\<rparr>
            | Raises e \<Rightarrow> m\<lparr>sink_log := sink_log m @ [Notify_failed current_time e]\<rparr>))"

text \<open>
  \<open>check_blink_rate_and_notify\<close>. The division is Python's: with a check interval of zero
  or less and no time elapsed it raises \<open>ZeroDivisionError\<close>, before anything is changed.
\<close>

definition check_blink_rate_and_notify ::
    "configuration \<Rightarrow> check_call \<Rightarrow> notification_manager \<Rightarrow> py_error + notification_manager" where
  "check_blink_rate_and_notify cfg c m =
     (let current_time = clock_check c;
          time_elapsed = current_time - last_check_time m
      in if real_of_int (NOTIFICATION_CHECK_INTERVAL cfg) / 1000 \<le> time_elapsed
         then
           (if time_elapsed = 0 then Inl ZeroDivisionError
            else
              (let blinks_in_interval = current_blink_count c - last_blink_count m;
                   blinks_per_minute = (real_of_int blinks_in_interval / time_elapsed) * 60;
                   m1 = (if blinks_per_minute < real_of_int (MIN_BLINKS_PER_MINUTE cfg)
                         then send_low_blink_notification c blinks_per_minute m
                         else m)
               in Inr (m1\<lparr>last_blink_count := current_blink_count c,
                          last_check_time := current_time\<rparr>)))
         else Inr m)"

definition reset_tracking :: "real \<Rightarrow> notification_manager \<Rightarrow> notification_manager" where
  "reset_tracking now m =
     m\<lparr>last_blink_count := 0, last_check_time := now, last_notification_time := None\<rparr>"

text \<open>
  The manager is called from an observer callback, so an exception of a call is caught by
  the tracker's notification loop and the next call finds the manager as it was.
\<close>

definition monitor_step ::
    "configuration \<Rightarrow> check_call \<Rightarrow> notification_manager \<Rightarrow> notification_manager" where
  "monitor_step cfg c m =
     (case check_blink_rate_and_notify cfg c m of Inl e \<Rightarrow> m | Inr m' \<Rightarrow> m')"

fun run_checks ::
    "configuration \<Rightarrow> check_call list \<Rightarrow> notification_manager \<Rightarrow> notification_manager" where
  "run_checks cfg [] m = m"
| "run_checks cfg (c # cs) m = run_checks cfg cs (monitor_step cfg c m)"

text \<open>
  The instants of the alerts that were delivered, and what it is for them to be spaced:
  any two of them, in the order they were raised, are at least \<open>d\<close> apart.
\<close>

fun alert_times :: "sink_event list \<Rightarrow> real list" where
  "alert_times [] = []"
| "alert_times (Notified t r # es) = t # alert_times es"
| "alert_times (Notify_failed t e # es) = alert_times es"

fun spaced :: "real \<Rightarrow> real list \<Rightarrow> bool" where
  "spaced d [] = True"
| "spaced d (t # ts) = (list_all (\<lambda>u. d \<le> u - t) ts \<and> spaced d ts)"

text \<open>Whether a call evaluates a window, and the rate of that window.\<close>

definition window_due :: "configuration \<Rightarrow> check_call \<Rightarrow> notification_manager \<Rightarrow> bool" where
  "window_due cfg c m =
     (real_of_int (NOTIFICATION_CHECK_INTERVAL cfg) / 1000 \<le> clock_check c - last_check_time m
      \<and> clock_check c - last_check_time m \<noteq> 0)"

definition window_rate :: "check_call \<Rightarrow> notification_manager \<Rightarrow> real" where
  "window_rate c m =
     real_of_int (current_blink_count c - last_blink_count m)
       / (clock_check c - last_check_time m) * 60"

section \<open>Runs of closed-eye samples, as the specification counts them\<close>

text \<open>
  A run is given by its first position \<open>i\<close> and its length \<open>n\<close>: \<open>n\<close> consecutive samples
  that are all below the threshold, not extensible to the left, and followed by a sample
  that closes the run. The runs that count have at least \<open>CONSECUTIVE_FRAMES\<close> samples.
\<close>

definition closed_run :: "('a \<Rightarrow> bool) \<Rightarrow> ('a \<Rightarrow> bool) \<Rightarrow> 'a list \<Rightarrow> nat \<Rightarrow> nat \<Rightarrow> bool" where
  "closed_run below closes xs i n =
     (0 < n \<and> i + n < length xs
      \<and> list_all below (take n (drop i xs))
      \<and> (if i = 0 then True else \<not> below (xs ! (i - 1)))
      \<and> closes (xs ! (i + n)))"

definition qualifying_runs ::
    "int \<Rightarrow> ('a \<Rightarrow> bool) \<Rightarrow> ('a \<Rightarrow> bool) \<Rightarrow> 'a list \<Rightarrow> (nat \<times> nat) list" where
  "qualifying_runs k below closes xs =
     filter (\<lambda>(i, n). closed_run below closes xs i n \<and> k \<le> int n)
       (List.product [0..<length xs] [0..<length xs])"

text \<open>The specification's two tests on a sample, and its count of blinks.\<close>

definition below_threshold :: "configuration \<Rightarrow> fp \<Rightarrow> bool" where
  "below_threshold cfg x = fp_lt x (EAR_THRESHOLD cfg)"

definition at_or_above_threshold :: "configuration \<Rightarrow> fp \<Rightarrow> bool" where
  "at_or_above_threshold cfg x = fp_ge x (EAR_THRESHOLD cfg)"

definition spec_blinks :: "configuration \<Rightarrow> fp list \<Rightarrow> nat" where
  "spec_blinks cfg xs =
     length (qualifying_runs (CONSECUTIVE_FRAMES cfg) (below_threshold cfg)
               (at_or_above_threshold cfg) xs)"

text \<open>
  The same count with the closing test of the code, which is the negation of the first
  test: a sample closes a run when it is not below the threshold, so a NaN closes it too.
\<close>

definition closed_blinks :: "configuration \<Rightarrow> fp list \<Rightarrow> nat" where
  "closed_blinks cfg xs =
     length (qualifying_runs (CONSECUTIVE_FRAMES cfg) (below_threshold cfg)
               (\<lambda>x. \<not> below_threshold cfg x) xs)"

text \<open>
  For the proofs: the qualifying runs as a set, and the length of the run of
  below-threshold samples at the end of a stream.
\<close>

definition run_set ::
    "int \<Rightarrow> ('a \<Rightarrow> bool) \<Rightarrow> ('a \<Rightarrow> bool) \<Rightarrow> 'a list \<Rightarrow> (nat \<times> nat) set" where
  "run_set k P Q xs = {(i, n). closed_run P Q xs i n \<and> k \<le> int n}"

definition trailing :: "('a \<Rightarrow> bool) \<Rightarrow> 'a list \<Rightarrow> nat" where
  "trailing P xs = length (takeWhile P (rev xs))"

section \<open>Auxiliary notions for the statements\<close>

text \<open>An event is a callback or a log line.\<close>

fun is_callback :: "event \<Rightarrow> bool" where
  "is_callback (Blink_callback i n) = True"
| "is_callback (Eye_data_callback i l r a) = True"
| "is_callback (Log_warning e) = False"
| "is_callback (Log_error e) = False"

text \<open>The value of \<open>blink_count\<close> before the first tick and after each tick.\<close>

fun blink_count_history :: "configuration \<Rightarrow> tick list \<Rightarrow> eye_tracker \<Rightarrow> int list" where
  "blink_count_history cfg [] s = [blink_count (data s)]"
| "blink_count_history cfg (t # ts) s =
     blink_count (data s) # blink_count_history cfg ts (process_frame cfg t s)"

text \<open>
  The counts told to the observers so far are in order and none exceeds the current
  count.
\<close>

definition told_inv :: "eye_tracker \<Rightarrow> bool" where
  "told_inv s =
     (sorted (blink_counts (trace s))
      \<and> list_all (\<lambda>n. n \<le> blink_count (data s)) (blink_counts (trace s)))"

text \<open>
  The alerts delivered so far are spaced by the cooldown and none is later than the
  instant the manager remembers.
\<close>

definition cooldown_inv :: "notification_manager \<Rightarrow> bool" where
  "cooldown_inv m =
     (0 \<le> notification_cooldown m
      \<and> spaced (notification_cooldown m) (alert_times (sink_log m))
      \<and> (case last_notification_time m of
            None \<Rightarrow> alert_times (sink_log m) = []
          | Some t \<Rightarrow> list_all (\<lambda>u. u \<le> t) (alert_times (sink_log m))))"

subsection \<open>Concrete inputs\<close>

text \<open>Two observers, one whose blink callback raises and one that is well behaved.\<close>

definition failing_observer :: observer where
  "failing_observer =
     \<lparr> obs_id = 1, on_blink_detected = (\<lambda>n. Raises ''boom''),
       on_eye_data_updated = (\<lambda>l r a. Returns) \<rparr>"

definition quiet_observer :: observer where
  "quiet_observer =
     \<lparr> obs_id = 2, on_blink_detected = (\<lambda>n. Returns),
       on_eye_data_updated = (\<lambda>l r a. Returns) \<rparr>"

text \<open>
  An open eye (EAR 1), a shut eye (EAR 0) and an eye whose two corners coincide, and the
  ticks that detect them.
\<close>

definition open_eye :: "point list" where
  "open_eye = [(0, 0), (1, 2), (3, 2), (4, 0), (3, - 2), (1, - 2)]"

definition shut_eye :: "point list" where
  "shut_eye = [(0, 0), (1, 0), (3, 0), (4, 0), (3, 0), (1, 0)]"

definition flat_eye :: "point list" where
  "flat_eye = [(0, 0), (0, 1), (0, 2), (0, 0), (0, 0), (0, 0)]"

definition open_tick :: tick where
  "open_tick = \<lparr> provider = Detection open_eye open_eye, overlay = Returns \<rparr>"



definition quiet_tick :: tick where
  "quiet_tick = \<lparr> provider = No_detection, overlay = Returns \<rparr>"

text \<open>Configurations that differ from the default in the named fields.\<close>

definition skip3 :: configuration where
  "skip3 = default_configuration\<lparr>MAX_FRAME_SKIP := 3\<rparr>"

definition eager :: configuration where
  "eager = default_configuration\<lparr>CONSECUTIVE_FRAMES := 0\<rparr>"

definition lax_configuration :: configuration where
  "lax_configuration =
     default_configuration\<lparr>CONSECUTIVE_FRAMES := - 1, MAX_FRAME_SKIP := - 1,
       MIN_BLINKS_PER_MINUTE := - 1, NOTIFICATION_CHECK_INTERVAL := 0,
       LEFT_EYE_INDICES := [], RIGHT_EYE_INDICES := [1, 2, 3, 4, 5, 6, 7]\<rparr>"

definition watched :: eye_tracker where
  "watched = init_tracker\<lparr>observers := [quiet_observer]\<rparr>"

text \<open>
  A tracker with both observers subscribed, after two frames below the threshold.
\<close>

definition overheard :: eye_tracker where
  "overheard =
     init_tracker\<lparr>frame_counter := 2, observers := [failing_observer, quiet_observer]\<rparr>"

text \<open>The sample stream of the specification's example.\<close>

definition spec_example :: "fp list" where
  "spec_example =
     [Fin (25 / 100), Fin (15 / 100), Fin (10 / 100), Fin (30 / 100), Fin (5 / 100),
      Fin (30 / 100)]"

text \<open>
  Three calls of the monitor, at 60, 120 and 400 seconds after its construction, and the
  manager after the first of them.
\<close>

definition first_call :: check_call where
  "first_call = \<lparr> current_blink_count = 5, clock_check = 60, clock_send = 60, sink = Returns \<rparr>"

definition second_call :: check_call where
  "second_call =
     \<lparr> current_blink_count = 5, clock_check = 120, clock_send = 120, sink = Returns \<rparr>"

definition third_call :: check_call where
  "third_call =
     \<lparr> current_blink_count = 7, clock_check = 400, clock_send = 400, sink = Returns \<rparr>"

definition alerted :: notification_manager where
  "alerted =
     \<lparr> last_blink_count = 5, last_check_time = 60, notification_cooldown = 300,
       last_notification_time = Some 60, sink_log = [Notified 60 5] \<rparr>"

section \<open>Properties of the EAR calculator\<close>

lemma euclidean_dist_spec: "euclidean_dist p q = spec_dist p q"
  by (simp add: euclidean_dist_def spec_dist_def linalg_norm_def dist_complex_def cmod_def
        plane_def array_sub_def power2_eq_square)


lemma calculate_ear_open_eye: "calculate_ear open_eye = Inr (Fin 1)"
  by (simp add: open_eye_def calculate_ear_def euclidean_dist_def linalg_norm_def
        array_sub_def np_div_def)



text \<open>
  Claim C2. For a landmark list of exactly six points \<open>p0 .. p5\<close> the EAR calculator
  returns \<open>(dist p1 p5 + dist p2 p4) / (2 * dist p0 p3)\<close>, with \<open>dist\<close> the Euclidean
  distance and the division numpy's; where the width \<open>dist p0 p3\<close> is not zero this is the
  quotient of real numbers. The function reads its argument only: it takes no tracker
  state and returns none.
\<close>

theorem C2_ear_formula:
  assumes "length lm = 6"
  shows "calculate_ear lm =
           Inr (np_div (spec_dist (lm ! 1) (lm ! 5) + spec_dist (lm ! 2) (lm ! 4))
                       (2 * spec_dist (lm ! 0) (lm ! 3)))
       \<and> (spec_dist (lm ! 0) (lm ! 3) \<noteq> 0 \<longrightarrow>
            calculate_ear lm =
              Inr (Fin ((spec_dist (lm ! 1) (lm ! 5) + spec_dist (lm ! 2) (lm ! 4))
                         / (2 * spec_dist (lm ! 0) (lm ! 3)))))"
  using assms by (simp add: calculate_ear_def euclidean_dist_spec np_div_def)

theorem C2_ear_formula_witness:
  "length open_eye = 6 \<and> spec_dist (open_eye ! 0) (open_eye ! 3) = 4
   \<and> calculate_ear open_eye = Inr (Fin ((4 + 4) / (2 * 4)))"
proof -
  have len: "length open_eye = 6"
    by (simp add: open_eye_def)
  have d: "spec_dist (open_eye ! 0) (open_eye ! 3) = 4"
      "spec_dist (open_eye ! 1) (open_eye ! 5) = 4"
      "spec_dist (open_eye ! 2) (open_eye ! 4) = 4"
    by (simp_all add: open_eye_def spec_dist_def plane_def dist_complex_def cmod_def)
  show ?thesis
    using C2_ear_formula [OF len] len d by (simp add: np_div_def)
qed





lemma fp_ge_not_lt: "fp_ge x t \<Longrightarrow> \<not> fp_lt x t"
  by (cases x) simp_all

section \<open>Properties of the configuration\<close>

text \<open>
  Claim C6, as the code has it. Construction validates three fields and no others:
  \<open>EAR_THRESHOLD\<close>, \<open>MIN_DETECTION_CONFIDENCE\<close> and \<open>MIN_TRACKING_CONFIDENCE\<close> must lie in
  \<open>[0, 1]\<close>; a configuration is accepted exactly when they do, whatever the other fields
  hold, and a rejected one raises a \<open>ValueError\<close>.
\<close>

theorem C6_validation:
  "(post_init c = Inr c) =
     (0 \<le> EAR_THRESHOLD c \<and> EAR_THRESHOLD c \<le> 1
      \<and> 0 \<le> MIN_DETECTION_CONFIDENCE c \<and> MIN_DETECTION_CONFIDENCE c \<le> 1
      \<and> 0 \<le> MIN_TRACKING_CONFIDENCE c \<and> MIN_TRACKING_CONFIDENCE c \<le> 1)
   \<and> (post_init c \<noteq> Inr c \<longrightarrow> (\<exists>m. post_init c = Inl (ValueError m)))"
  by (auto simp add: post_init_def)

theorem C6_validation_witness:
  "post_init (default_configuration\<lparr>EAR_THRESHOLD := 2\<rparr>)
     \<noteq> Inr (default_configuration\<lparr>EAR_THRESHOLD := 2\<rparr>)
   \<and> (\<exists>m. post_init (default_configuration\<lparr>EAR_THRESHOLD := 2\<rparr>) = Inl (ValueError m))
   \<and> post_init default_configuration = Inr default_configuration"
  using C6_validation [of "default_configuration\<lparr>EAR_THRESHOLD := 2\<rparr>"]
    C6_validation [of default_configuration]
  by (simp add: default_configuration_def)

text \<open>
  A configuration with negative \<open>CONSECUTIVE_FRAMES\<close>, \<open>MAX_FRAME_SKIP\<close> and
  \<open>MIN_BLINKS_PER_MINUTE\<close>, a check interval of zero and index lists of zero and seven
  entries is accepted.
\<close>

theorem C6_validation_counterexample:
  "post_init lax_configuration = Inr lax_configuration
   \<and> CONSECUTIVE_FRAMES lax_configuration < 0 \<and> MAX_FRAME_SKIP lax_configuration < 0
   \<and> MIN_BLINKS_PER_MINUTE lax_configuration < 0
   \<and> NOTIFICATION_CHECK_INTERVAL lax_configuration \<le> 0
   \<and> length (LEFT_EYE_INDICES lax_configuration) \<noteq> 6
   \<and> length (RIGHT_EYE_INDICES lax_configuration) \<noteq> 6"
  by (simp add: post_init_def lax_configuration_def default_configuration_def)

section \<open>Properties of the observer hub\<close>

lemma callbacks_blink_loop:
  "filter is_callback (blink_loop obs n) = map (\<lambda>ob. Blink_callback (obs_id ob) n) obs"
  by (induction obs) (simp_all split: outcome.splits)

lemma callbacks_eye_data_loop:
  "filter is_callback (eye_data_loop obs l r a) =
     map (\<lambda>ob. Eye_data_callback (obs_id ob) l r a) obs"
  by (induction obs) (simp_all split: outcome.splits)

lemma warnings_blink_loop:
  "filter (\<lambda>e. \<not> is_callback e) (blink_loop obs n) =
     concat (map (\<lambda>ob. case on_blink_detected ob n of
                          Returns \<Rightarrow> [] | Raises e \<Rightarrow> [Log_warning e]) obs)"
  by (induction obs) (simp_all split: outcome.splits)

lemma warnings_eye_data_loop:
  "filter (\<lambda>e. \<not> is_callback e) (eye_data_loop obs l r a) =
     concat (map (\<lambda>ob. case on_eye_data_updated ob l r a of
                          Returns \<Rightarrow> [] | Raises e \<Rightarrow> [Log_warning e]) obs)"
  by (induction obs) (simp_all split: outcome.splits)

lemma blink_counts_append: "blink_counts (xs @ ys) = blink_counts xs @ blink_counts ys"
  by (induction xs rule: blink_counts.induct) simp_all

lemma blink_counts_blink_loop: "blink_counts (blink_loop obs n) = replicate (length obs) n"
  by (induction obs) (simp_all split: outcome.splits)

lemma blink_counts_eye_data_loop: "blink_counts (eye_data_loop obs l r a) = []"
  by (induction obs) (simp_all split: outcome.splits)

text \<open>What one step of the blink detector does to each part of the state.\<close>

lemma update_blink_count:
  "blink_count (data (update_blink_detection cfg s)) =
     blink_count (data s)
       + (if \<not> fp_lt (avg_ear (data s)) (EAR_THRESHOLD cfg)
             \<and> CONSECUTIVE_FRAMES cfg \<le> frame_counter s
          then 1 else 0)"
  by (simp add: update_blink_detection_def notify_blink_detected_def Let_def)

lemma update_frame_counter:
  "frame_counter (update_blink_detection cfg s) =
     (if fp_lt (avg_ear (data s)) (EAR_THRESHOLD cfg) then frame_counter s + 1 else 0)"
  by (simp add: update_blink_detection_def notify_blink_detected_def Let_def)

lemma update_blink_trace:
  "blink_counts (trace (update_blink_detection cfg s)) =
     blink_counts (trace s)
       @ (if \<not> fp_lt (avg_ear (data s)) (EAR_THRESHOLD cfg)
             \<and> CONSECUTIVE_FRAMES cfg \<le> frame_counter s
          then replicate (length (observers s)) (blink_count (data s) + 1) else [])"
  by (simp add: update_blink_detection_def notify_blink_detected_def Let_def
        blink_counts_append blink_counts_blink_loop)

lemma update_observers: "observers (update_blink_detection cfg s) = observers s"
  by (simp add: update_blink_detection_def notify_blink_detected_def Let_def)


text \<open>
  The two publish operations append the events of their loops to the trace and change
  nothing else.
\<close>

lemma notify_blink_callbacks:
  "filter is_callback (trace (notify_blink_detected s)) =
     filter is_callback (trace s)
       @ map (\<lambda>ob. Blink_callback (obs_id ob) (blink_count (data s))) (observers s)"
  by (simp add: notify_blink_detected_def callbacks_blink_loop)

lemma notify_blink_warnings:
  "filter (\<lambda>e. \<not> is_callback e) (trace (notify_blink_detected s)) =
     filter (\<lambda>e. \<not> is_callback e) (trace s)
       @ concat (map (\<lambda>ob. case on_blink_detected ob (blink_count (data s)) of
                            Returns \<Rightarrow> [] | Raises e \<Rightarrow> [Log_warning e]) (observers s))"
  by (simp add: notify_blink_detected_def warnings_blink_loop)

lemma notify_eye_data_callbacks:
  "filter is_callback (trace (notify_eye_data_updated s)) =
     filter is_callback (trace s)
       @ map (\<lambda>ob. Eye_data_callback (obs_id ob) (left_ear (data s)) (right_ear (data s))
                     (avg_ear (data s))) (observers s)"
  by (simp add: notify_eye_data_updated_def callbacks_eye_data_loop)

lemma notify_eye_data_warnings:
  "filter (\<lambda>e. \<not> is_callback e) (trace (notify_eye_data_updated s)) =
     filter (\<lambda>e. \<not> is_callback e) (trace s)
       @ concat (map (\<lambda>ob. case on_eye_data_updated ob (left_ear (data s))
                                   (right_ear (data s)) (avg_ear (data s)) of
                            Returns \<Rightarrow> [] | Raises e \<Rightarrow> [Log_warning e]) (observers s))"
  by (simp add: notify_eye_data_updated_def warnings_eye_data_loop)

lemma notify_only_trace:
  "notify_blink_detected s = s\<lparr>trace := trace (notify_blink_detected s)\<rparr>"
  "notify_eye_data_updated s = s\<lparr>trace := trace (notify_eye_data_updated s)\<rparr>"
  by (simp_all add: notify_blink_detected_def notify_eye_data_updated_def)

lemma update_blink_callbacks:
  "filter is_callback (trace (update_blink_detection cfg s)) =
     filter is_callback (trace s)
       @ (if \<not> fp_lt (avg_ear (data s)) (EAR_THRESHOLD cfg)
             \<and> CONSECUTIVE_FRAMES cfg \<le> frame_counter s
          then map (\<lambda>ob. Blink_callback (obs_id ob) (blink_count (data s) + 1)) (observers s)
          else [])"
  by (simp add: update_blink_detection_def Let_def notify_blink_callbacks)

section \<open>Properties of frame processing\<close>

lemma frame_error_fields:
  "data (frame_error e s) = data s"
  "frame_counter (frame_error e s) = frame_counter s"
  "frame_skip_counter (frame_error e s) = frame_skip_counter s"
  "last_valid_landmarks (frame_error e s) = last_valid_landmarks s"
  "observers (frame_error e s) = observers s"
  "blink_counts (trace (frame_error e s)) = blink_counts (trace s)"
  by (simp_all add: frame_error_def blink_counts_append)

lemma draw_and_notify_fields:
  "data (draw_and_notify t s) = data s"
  "frame_counter (draw_and_notify t s) = frame_counter s"
  "frame_skip_counter (draw_and_notify t s) = frame_skip_counter s"
  "last_valid_landmarks (draw_and_notify t s) = last_valid_landmarks s"
  "observers (draw_and_notify t s) = observers s"
  "blink_counts (trace (draw_and_notify t s)) = blink_counts (trace s)"
  by (simp_all add: draw_and_notify_def frame_error_def notify_eye_data_updated_def
        blink_counts_append blink_counts_eye_data_loop split: outcome.splits)

lemmas frame_simps = frame_error_fields draw_and_notify_fields

text \<open>A tick on which detection runs and both EARs are computed feeds the detector.\<close>

lemma process_frame_fresh_sample:
  assumes "should_process cfg s" "provider t = Detection l r"
    "calculate_ear l = Inr el" "calculate_ear r = Inr er"
  shows "process_frame cfg t s =
     draw_and_notify t (update_blink_detection cfg
       (s\<lparr>frame_skip_counter := 0, last_valid_landmarks := Some (l, r),
          data := (data s)\<lparr>left_eye_landmarks := Some l, right_eye_landmarks := Some r,
                           left_ear := el, right_ear := er,
                           avg_ear := fp_half (fp_add el er)\<rparr>\<rparr>))"
  using assms by (simp add: process_frame_def should_process_def Let_def)

text \<open>
  On a frame that counts a blink, every observer is told the blink and then the eye data.
\<close>

lemma blink_frame_callbacks:
  assumes "should_process cfg s" "provider t = Detection l r"
    "calculate_ear l = Inr el" "calculate_ear r = Inr er" "overlay t = Returns"
    "\<not> fp_lt (fp_half (fp_add el er)) (EAR_THRESHOLD cfg)"
    "CONSECUTIVE_FRAMES cfg \<le> frame_counter s"
  shows "filter is_callback (trace (process_frame cfg t s)) =
     filter is_callback (trace s)
       @ map (\<lambda>ob. Blink_callback (obs_id ob) (blink_count (data s) + 1)) (observers s)
       @ map (\<lambda>ob. Eye_data_callback (obs_id ob) el er (fp_half (fp_add el er))) (observers s)"
  using assms(5-7)
  by (simp add: process_frame_fresh_sample [OF assms(1-4)] draw_and_notify_def
        notify_eye_data_callbacks update_blink_callbacks update_observers
        update_blink_detection_def notify_blink_detected_def Let_def callbacks_blink_loop)


text \<open>
  Claim C9. Publishing a blink (\<open>_notify_blink_detected\<close>) or eye data
  (\<open>_notify_eye_data_updated\<close>) invokes the callback of every observer of the snapshot
  exactly once, in order and with the same arguments, whichever of them raise; each
  exception is logged as a warning; and none reaches the publisher: the operation returns
  with only the trace changed, the blink detector goes on to reset its counter, and the
  frame that counted the blink goes on to publish the eye data to every observer.
\<close>

theorem C9_observer_isolation:
  "filter is_callback (trace (notify_blink_detected s)) =
     filter is_callback (trace s)
       @ map (\<lambda>ob. Blink_callback (obs_id ob) (blink_count (data s))) (observers s)
   \<and> filter (\<lambda>e. \<not> is_callback e) (trace (notify_blink_detected s)) =
       filter (\<lambda>e. \<not> is_callback e) (trace s)
         @ concat (map (\<lambda>ob. case on_blink_detected ob (blink_count (data s)) of
                              Returns \<Rightarrow> [] | Raises e \<Rightarrow> [Log_warning e]) (observers s))
   \<and> filter is_callback (trace (notify_eye_data_updated s)) =
       filter is_callback (trace s)
         @ map (\<lambda>ob. Eye_data_callback (obs_id ob) (left_ear (data s)) (right_ear (data s))
                       (avg_ear (data s))) (observers s)
   \<and> filter (\<lambda>e. \<not> is_callback e) (trace (notify_eye_data_updated s)) =
       filter (\<lambda>e. \<not> is_callback e) (trace s)
         @ concat (map (\<lambda>ob. case on_eye_data_updated ob (left_ear (data s))
                                     (right_ear (data s)) (avg_ear (data s)) of
                              Returns \<Rightarrow> [] | Raises e \<Rightarrow> [Log_warning e]) (observers s))
   \<and> notify_blink_detected s = s\<lparr>trace := trace (notify_blink_detected s)\<rparr>
   \<and> notify_eye_data_updated s = s\<lparr>trace := trace (notify_eye_data_updated s)\<rparr>
   \<and> filter is_callback (blink_loop obs n) = map (\<lambda>ob. Blink_callback (obs_id ob) n) obs
   \<and> filter is_callback (eye_data_loop obs l r a) =
       map (\<lambda>ob. Eye_data_callback (obs_id ob) l r a) obs
   \<and> filter (\<lambda>e. \<not> is_callback e) (blink_loop obs n) =
       concat (map (\<lambda>ob. case on_blink_detected ob n of
                            Returns \<Rightarrow> [] | Raises e \<Rightarrow> [Log_warning e]) obs)
   \<and> filter (\<lambda>e. \<not> is_callback e) (eye_data_loop obs l r a) =
       concat (map (\<lambda>ob. case on_eye_data_updated ob l r a of
                            Returns \<Rightarrow> [] | Raises e \<Rightarrow> [Log_warning e]) obs)
   \<and> frame_counter (update_blink_detection cfg s) =
       (if fp_lt (avg_ear (data s)) (EAR_THRESHOLD cfg) then frame_counter s + 1 else 0)
   \<and> (should_process cfg s \<and> provider t = Detection le re
        \<and> calculate_ear le = Inr el \<and> calculate_ear re = Inr er \<and> overlay t = Returns
        \<and> \<not> fp_lt (fp_half (fp_add el er)) (EAR_THRESHOLD cfg)
        \<and> CONSECUTIVE_FRAMES cfg \<le> frame_counter s \<longrightarrow>
      filter is_callback (trace (process_frame cfg t s)) =
        filter is_callback (trace s)
          @ map (\<lambda>ob. Blink_callback (obs_id ob) (blink_count (data s) + 1)) (observers s)
          @ map (\<lambda>ob. Eye_data_callback (obs_id ob) el er (fp_half (fp_add el er)))
              (observers s))"
proof -
  have "filter is_callback (trace (process_frame cfg t s)) =
        filter is_callback (trace s)
          @ map (\<lambda>ob. Blink_callback (obs_id ob) (blink_count (data s) + 1)) (observers s)
          @ map (\<lambda>ob. Eye_data_callback (obs_id ob) el er (fp_half (fp_add el er)))
              (observers s)"
    if "should_process cfg s \<and> provider t = Detection le re
        \<and> calculate_ear le = Inr el \<and> calculate_ear re = Inr er \<and> overlay t = Returns
        \<and> \<not> fp_lt (fp_half (fp_add el er)) (EAR_THRESHOLD cfg)
        \<and> CONSECUTIVE_FRAMES cfg \<le> frame_counter s"
    using that blink_frame_callbacks [of cfg s t le re el er] by blast
  moreover note notify_blink_callbacks [of s] notify_blink_warnings [of s]
    notify_eye_data_callbacks [of s] notify_eye_data_warnings [of s]
    notify_only_trace [of s]
    callbacks_blink_loop [of obs n] callbacks_eye_data_loop [of obs l r a]
    warnings_blink_loop [of obs n] warnings_eye_data_loop [of obs l r a]
    update_frame_counter [of cfg s]
  ultimately show ?thesis
    by (intro conjI impI)
qed

theorem C9_observer_isolation_witness:
  "filter is_callback (trace (notify_blink_detected overheard)) =
     [Blink_callback 1 0, Blink_callback 2 0]
   \<and> filter (\<lambda>e. \<not> is_callback e) (trace (notify_blink_detected overheard)) =
       [Log_warning ''boom'']
   \<and> should_process default_configuration overheard
   \<and> provider open_tick = Detection open_eye open_eye \<and> overlay open_tick = Returns
   \<and> \<not> fp_lt (fp_half (fp_add (Fin 1) (Fin 1))) (EAR_THRESHOLD default_configuration)
   \<and> CONSECUTIVE_FRAMES default_configuration \<le> frame_counter overheard
   \<and> filter is_callback (trace (process_frame default_configuration open_tick overheard)) =
       [Blink_callback 1 1, Blink_callback 2 1,
        Eye_data_callback 1 (Fin 1) (Fin 1) (Fin 1),
        Eye_data_callback 2 (Fin 1) (Fin 1) (Fin 1)]"
proof -
  have a: "should_process default_configuration overheard"
      "provider open_tick = Detection open_eye open_eye" "overlay open_tick = Returns"
      "\<not> fp_lt (fp_half (fp_add (Fin 1) (Fin 1))) (EAR_THRESHOLD default_configuration)"
      "CONSECUTIVE_FRAMES default_configuration \<le> frame_counter overheard"
    by (simp_all add: should_process_def default_configuration_def overheard_def
          init_tracker_def open_tick_def)
  have b: "trace overheard = []" "blink_count (data overheard) = 0"
      "observers overheard = [failing_observer, quiet_observer]"
      "obs_id failing_observer = 1" "obs_id quiet_observer = 2"
      "on_blink_detected failing_observer 0 = Raises ''boom''"
      "on_blink_detected quiet_observer 0 = Returns"
    by (simp_all add: overheard_def init_tracker_def failing_observer_def quiet_observer_def)
  show ?thesis
    using C9_observer_isolation [of overheard _ _ _ _ _ default_configuration open_tick open_eye open_eye
        "Fin 1" "Fin 1"] a b calculate_ear_open_eye
    by simp
qed

text \<open>
  Claim C3. On a tick that the scheduler skips, the snapshot (\<open>blink_count\<close>, the three
  EARs and the landmark fields), the consecutive-frame counter and the cache are
  unchanged and no blink is published. On a tick where detection runs and reports no
  face, the same holds except that the two landmark fields of the snapshot are set from
  the cached pair when there is one; the blink detector is not fed.
\<close>

theorem C3_no_fresh_sample:
  "(\<not> should_process cfg s \<longrightarrow>
      data (process_frame cfg t s) = data s
      \<and> frame_counter (process_frame cfg t s) = frame_counter s
      \<and> last_valid_landmarks (process_frame cfg t s) = last_valid_landmarks s
      \<and> blink_counts (trace (process_frame cfg t s)) = blink_counts (trace s))
   \<and> (should_process cfg s \<and> provider t = No_detection \<longrightarrow>
      data (process_frame cfg t s) =
        (case last_valid_landmarks s of
           None \<Rightarrow> data s
         | Some (l, r) \<Rightarrow>
             (data s)\<lparr>left_eye_landmarks := Some l, right_eye_landmarks := Some r\<rparr>)
      \<and> frame_counter (process_frame cfg t s) = frame_counter s
      \<and> last_valid_landmarks (process_frame cfg t s) = last_valid_landmarks s
      \<and> blink_counts (trace (process_frame cfg t s)) = blink_counts (trace s))"
  by (simp add: process_frame_def should_process_def Let_def frame_simps
        split: option.splits prod.splits)

theorem C3_no_fresh_sample_witness:
  "\<not> should_process skip3 init_tracker
   \<and> data (process_frame skip3 open_tick init_tracker) = data init_tracker
   \<and> should_process default_configuration
        (init_tracker\<lparr>last_valid_landmarks := Some (open_eye, flat_eye)\<rparr>)
   \<and> provider quiet_tick = No_detection
   \<and> data (process_frame default_configuration quiet_tick
        (init_tracker\<lparr>last_valid_landmarks := Some (open_eye, flat_eye)\<rparr>)) =
       (data init_tracker)\<lparr>left_eye_landmarks := Some open_eye,
                            right_eye_landmarks := Some flat_eye\<rparr>
   \<and> frame_counter (process_frame default_configuration quiet_tick
        (init_tracker\<lparr>last_valid_landmarks := Some (open_eye, flat_eye)\<rparr>)) = 0"
  using C3_no_fresh_sample [of skip3 init_tracker open_tick]
    C3_no_fresh_sample [of default_configuration
      "init_tracker\<lparr>last_valid_landmarks := Some (open_eye, flat_eye)\<rparr>" quiet_tick]
  by (simp add: should_process_def skip3_def default_configuration_def init_tracker_def
        quiet_tick_def)




section \<open>Properties of the frame scheduler\<close>

lemma skip_counter_step:
  "frame_skip_counter (process_frame cfg t s) =
     (if MAX_FRAME_SKIP cfg \<le> frame_skip_counter s + 1 then 0 else frame_skip_counter s + 1)"
  by (simp add: process_frame_def Let_def frame_simps update_blink_detection_def
        notify_blink_detected_def
        split: provider_result.splits option.splits sum.splits prod.splits)

lemma detection_ticks_every:
  "MAX_FRAME_SKIP cfg \<le> 1 \<Longrightarrow> 0 \<le> frame_skip_counter s \<Longrightarrow>
   detection_ticks cfg ts s = replicate (length ts) True"
  by (induction ts arbitrary: s) (simp_all add: should_process_def skip_counter_step)

lemma mod_succ_zero: "0 < N \<Longrightarrow> (Suc j mod N = 0) = (Suc (j mod N) = N)"
  by (metis mod_Suc nat.simps(3))

lemma counter_reaches: "r < N \<Longrightarrow> (int N \<le> int r + 1) = (Suc r = N)"
  by arith

text \<open>
  With a skip count \<open>N\<close> of at least one the counter counts the ticks modulo \<open>N\<close>, and
  detection runs on the ticks that complete a group of \<open>N\<close>.
\<close>

lemma detection_ticks_period:
  assumes "MAX_FRAME_SKIP cfg = int N" "0 < N"
  shows "frame_skip_counter s = int (j mod N) \<Longrightarrow>
    detection_ticks cfg ts s = map (\<lambda>i. (j + i + 1) mod N = 0) [0..<length ts]"
proof (induction ts arbitrary: s j)
  case Nil
  show ?case by simp
next
  case (Cons t ts)
  have r: "j mod N < N" using assms(2) by simp
  have reach: "(MAX_FRAME_SKIP cfg \<le> frame_skip_counter s + 1) = (Suc j mod N = 0)"
    using counter_reaches [OF r] mod_succ_zero [OF assms(2), of j] assms(1) Cons.prems by simp
  have hd: "should_process cfg s = ((j + 1) mod N = 0)"
    using reach by (simp add: should_process_def)
  have "frame_skip_counter (process_frame cfg t s) = int (Suc j mod N)"
    using reach mod_succ_zero [OF assms(2), of j] Cons.prems
    by (simp add: skip_counter_step mod_Suc)
  from Cons.IH [OF this]
  have tl: "detection_ticks cfg ts (process_frame cfg t s) =
      map (\<lambda>i. (j + Suc i + 1) mod N = 0) [0..<length ts]"
    by simp
  have "[0..<length (t # ts)] = 0 # map Suc [0..<length ts]"
    by (simp add: upt_conv_Cons map_Suc_upt del: upt_Suc)
  then show ?case
    using hd tl by (simp add: comp_def del: upt_Suc)
qed

text \<open>Among \<open>N\<close> consecutive numbers exactly one has a successor divisible by \<open>N\<close>.\<close>

lemma window_count:
  assumes "0 < N"
  shows "length (filter (\<lambda>i. Suc i mod N = 0) [k..<k + N]) = 1"
proof (induction k)
  case 0
  obtain M where M: "N = Suc M" using assms by (cases N) auto
  have "filter (\<lambda>i. Suc i mod Suc M = 0) [0..<M] = []"
    by (simp add: filter_empty_conv)
  then show ?case by (simp add: M)
next
  case (Suc k)
  have a: "[k..<k + N] = k # [Suc k..<k + N]"
    using assms by (simp add: upt_conv_Cons)
  have b: "[Suc k..<Suc k + N] = [Suc k..<k + N] @ [k + N]"
    using assms by simp
  have c: "(Suc (k + N) mod N = 0) = (Suc k mod N = 0)"
    by (metis add_Suc mod_add_self2)
  show ?case using Suc.IH unfolding a b by (simp add: c split: if_splits)
qed

text \<open>A tick that the scheduler skips does not consult the landmark provider.\<close>

lemma skipped_tick_ignores_provider:
  "\<not> should_process cfg s \<Longrightarrow>
   process_frame cfg (t\<lparr>provider := p\<rparr>) s = process_frame cfg t s"
  by (simp add: process_frame_def should_process_def Let_def draw_and_notify_def)

text \<open>
  A tick on which detection runs consumes what the provider returns: its exception is
  logged, its detection is cached and shown in the snapshot.
\<close>

lemma scheduled_tick_reads_provider:
  assumes "should_process cfg s"
  shows "trace (process_frame cfg (t\<lparr>provider := Provider_raises e\<rparr>) s) = trace s @ [Log_error e]"
    and "last_valid_landmarks (process_frame cfg (t\<lparr>provider := Detection l r\<rparr>) s) = Some (l, r)"
    and "left_eye_landmarks (data (process_frame cfg (t\<lparr>provider := Detection l r\<rparr>) s)) = Some l"
    and "right_eye_landmarks (data (process_frame cfg (t\<lparr>provider := Detection l r\<rparr>) s)) = Some r"
  using assms
  by (simp_all add: process_frame_def should_process_def Let_def frame_error_def frame_simps
        update_blink_detection_def notify_blink_detected_def
        split: sum.splits)

lemma detection_ticks_nth:
  "i < length ts \<Longrightarrow>
   detection_ticks cfg ts s ! i = should_process cfg (run_frames cfg (take i ts) s)"
proof (induction ts arbitrary: s i)
  case Nil
  then show ?case by simp
next
  case (Cons t ts)
  then show ?case by (cases i) simp_all
qed

lemma detection_ticks_length: "length (detection_ticks cfg ts s) = length ts"
  by (induction ts arbitrary: s) simp_all

text \<open>
  Claim C7. For a tracker whose skip counter is zero, as at construction, and any
  sequence of ticks: with \<open>MAX_FRAME_SKIP = 0\<close> detection runs on every tick, and with
  \<open>MAX_FRAME_SKIP = N \<ge> 1\<close> detection runs on exactly one of any \<open>N\<close> consecutive ticks.
  The ticks on which detection runs are those on which \<open>process_frame\<close> invokes the
  landmark provider: the entry of a tick in \<open>detection_ticks\<close> is the scheduler's test on
  the state the run has reached, and that test holds exactly when what the tick does
  depends on the provider's result. On such a tick the provider's exception is logged and
  its detection is cached and shown; on the other ticks the result is the same whatever
  the provider would have returned.
\<close>

theorem C7_frame_scheduler:
  assumes "frame_skip_counter s = 0"
  shows "(MAX_FRAME_SKIP cfg = 0 \<longrightarrow> detection_ticks cfg ts s = replicate (length ts) True)
    \<and> (1 \<le> MAX_FRAME_SKIP cfg \<and> k + nat (MAX_FRAME_SKIP cfg) \<le> length ts \<longrightarrow>
         length (filter (\<lambda>b. b)
           (take (nat (MAX_FRAME_SKIP cfg)) (drop k (detection_ticks cfg ts s)))) = 1)
    \<and> (\<not> should_process cfg s' \<longrightarrow>
         process_frame cfg (t\<lparr>provider := p\<rparr>) s' = process_frame cfg t s')
    \<and> (i < length ts \<longrightarrow>
         detection_ticks cfg ts s ! i = should_process cfg (run_frames cfg (take i ts) s))
    \<and> should_process cfg s' =
         (\<exists>u q. process_frame cfg (u\<lparr>provider := q\<rparr>) s' \<noteq> process_frame cfg u s')
    \<and> (should_process cfg s' \<longrightarrow>
         trace (process_frame cfg (t\<lparr>provider := Provider_raises e\<rparr>) s') =
           trace s' @ [Log_error e]
         \<and> last_valid_landmarks (process_frame cfg (t\<lparr>provider := Detection l r\<rparr>) s') =
             Some (l, r)
         \<and> left_eye_landmarks (data (process_frame cfg (t\<lparr>provider := Detection l r\<rparr>) s')) =
             Some l
         \<and> right_eye_landmarks (data (process_frame cfg (t\<lparr>provider := Detection l r\<rparr>) s')) =
             Some r)"
proof -
  have dep: "should_process cfg s' =
      (\<exists>u q. process_frame cfg (u\<lparr>provider := q\<rparr>) s' \<noteq> process_frame cfg u s')"
  proof
    assume sp: "should_process cfg s'"
    let ?u = "\<lparr> provider = Provider_raises ''a'', overlay = Returns \<rparr>"
    have "trace (process_frame cfg (?u\<lparr>provider := Provider_raises ''b''\<rparr>) s') =
        trace s' @ [Log_error ''b'']"
      using sp by (rule scheduled_tick_reads_provider(1))
    moreover have "trace (process_frame cfg (?u\<lparr>provider := Provider_raises ''a''\<rparr>) s') =
        trace s' @ [Log_error ''a'']"
      using sp by (rule scheduled_tick_reads_provider(1))
    ultimately have "process_frame cfg (?u\<lparr>provider := Provider_raises ''b''\<rparr>) s'
        \<noteq> process_frame cfg ?u s'"
      by auto
    then show "\<exists>u q. process_frame cfg (u\<lparr>provider := q\<rparr>) s' \<noteq> process_frame cfg u s'"
      by blast
  next
    assume "\<exists>u q. process_frame cfg (u\<lparr>provider := q\<rparr>) s' \<noteq> process_frame cfg u s'"
    then show "should_process cfg s'"
      using skipped_tick_ignores_provider [of cfg s'] by blast
  qed
  have every: "detection_ticks cfg ts s = replicate (length ts) True"
    if "MAX_FRAME_SKIP cfg = 0"
    using that assms detection_ticks_every [of cfg s ts] by simp
  have window: "length (filter (\<lambda>b. b)
      (take (nat (MAX_FRAME_SKIP cfg)) (drop k (detection_ticks cfg ts s)))) = 1"
    if h: "1 \<le> MAX_FRAME_SKIP cfg \<and> k + nat (MAX_FRAME_SKIP cfg) \<le> length ts"
  proof -
    define N where "N = nat (MAX_FRAME_SKIP cfg)"
    have N: "MAX_FRAME_SKIP cfg = int N" "0 < N" "k + N \<le> length ts"
      using h by (simp_all add: N_def)
    have "detection_ticks cfg ts s = map (\<lambda>i. Suc i mod N = 0) [0..<length ts]"
      using detection_ticks_period [OF N(1,2), of s 0 ts] assms by simp
    then have "take N (drop k (detection_ticks cfg ts s)) =
        map (\<lambda>i. Suc i mod N = 0) [k..<k + N]"
      using N(3) by (simp add: take_map drop_map)
    then show ?thesis
      using window_count [OF N(2), of k] by (simp add: N_def [symmetric] filter_map comp_def)
  qed
  have skipped: "process_frame cfg (t\<lparr>provider := p\<rparr>) s' = process_frame cfg t s'"
    if "\<not> should_process cfg s'"
    using that by (rule skipped_tick_ignores_provider)
  have nth: "detection_ticks cfg ts s ! i = should_process cfg (run_frames cfg (take i ts) s)"
    if "i < length ts"
    using that by (rule detection_ticks_nth)
  note reads = scheduled_tick_reads_provider [of cfg s']
  show ?thesis
    using every window skipped nth dep reads by (intro conjI impI)
qed

theorem C7_frame_scheduler_witness:
  "frame_skip_counter init_tracker = 0
   \<and> MAX_FRAME_SKIP default_configuration = 0
   \<and> detection_ticks default_configuration (replicate 7 quiet_tick) init_tracker =
       replicate 7 True
   \<and> 1 \<le> MAX_FRAME_SKIP skip3 \<and> 2 + nat (MAX_FRAME_SKIP skip3) \<le> length (replicate 7 quiet_tick)
   \<and> length (filter (\<lambda>b. b)
        (take 3 (drop 2 (detection_ticks skip3 (replicate 7 quiet_tick) init_tracker)))) = 1
   \<and> \<not> should_process skip3 init_tracker
   \<and> process_frame skip3 (open_tick\<lparr>provider := No_detection\<rparr>) init_tracker =
       process_frame skip3 open_tick init_tracker
   \<and> 0 < length (replicate 7 quiet_tick)
   \<and> detection_ticks skip3 (replicate 7 quiet_tick) init_tracker ! 0 = False
   \<and> should_process default_configuration init_tracker
   \<and> trace (process_frame default_configuration
        (open_tick\<lparr>provider := Provider_raises ''down''\<rparr>) init_tracker) = [Log_error ''down'']
   \<and> last_valid_landmarks (process_frame default_configuration
        (quiet_tick\<lparr>provider := Detection open_eye shut_eye\<rparr>) init_tracker) =
       Some (open_eye, shut_eye)"
proof -
  have a: "frame_skip_counter init_tracker = 0"
    by (simp add: init_tracker_def)
  have b: "\<not> should_process skip3 init_tracker"
      "should_process default_configuration init_tracker" "trace init_tracker = []"
    by (simp_all add: should_process_def skip3_def default_configuration_def init_tracker_def)
  have c: "MAX_FRAME_SKIP default_configuration = 0" "MAX_FRAME_SKIP skip3 = 3"
    by (simp_all add: skip3_def default_configuration_def)
  show ?thesis
    using C7_frame_scheduler [OF a, where cfg = default_configuration
        and ts = "replicate 7 quiet_tick" and s' = init_tracker and t = open_tick
        and e = "''down''"]
      C7_frame_scheduler [OF a, where cfg = default_configuration
        and ts = "replicate 7 quiet_tick" and s' = init_tracker and t = quiet_tick
        and l = open_eye and r = shut_eye]
      C7_frame_scheduler [OF a, where cfg = skip3 and k = 2 and ts = "replicate 7 quiet_tick"
        and s' = init_tracker and t = open_tick and p = No_detection and i = 0] a b c
    by simp
qed

section \<open>Monotonicity of the blink count\<close>

lemma process_frame_mono: "blink_count (data s) \<le> blink_count (data (process_frame cfg t s))"
  by (simp add: process_frame_def Let_def update_blink_count frame_simps
        split: provider_result.splits option.splits sum.splits prod.splits)

lemma run_frames_mono: "blink_count (data s) \<le> blink_count (data (run_frames cfg ts s))"
proof (induction ts arbitrary: s)
  case Nil
  show ?case by simp
next
  case (Cons t ts)
  have "blink_count (data s) \<le> blink_count (data (process_frame cfg t s))"
    by (rule process_frame_mono)
  also have "\<dots> \<le> blink_count (data (run_frames cfg ts (process_frame cfg t s)))"
    by (rule Cons.IH)
  finally show ?case by simp
qed

lemma history_lower_bound:
  "\<forall>n \<in> set (blink_count_history cfg ts s). blink_count (data s) \<le> n"
proof (induction ts arbitrary: s)
  case Nil
  show ?case by simp
next
  case (Cons t ts)
  show ?case
    using Cons.IH [of "process_frame cfg t s"] process_frame_mono [of s cfg t] by fastforce
qed

lemma history_sorted: "sorted (blink_count_history cfg ts s)"
proof (induction ts arbitrary: s)
  case Nil
  show ?case by simp
next
  case (Cons t ts)
  have "\<forall>n \<in> set (blink_count_history cfg ts (process_frame cfg t s)).
          blink_count (data s) \<le> n"
    using history_lower_bound [of cfg ts "process_frame cfg t s"]
      process_frame_mono [of s cfg t]
    by fastforce
  then show ?case
    using Cons.IH by simp
qed

lemma told_inv_process_frame: "told_inv s \<Longrightarrow> told_inv (process_frame cfg t s)"
  by (auto simp add: told_inv_def process_frame_def Let_def update_blink_count
        update_blink_trace frame_simps sorted_append list_all_iff
        split: provider_result.splits option.splits sum.splits prod.splits)

lemma told_inv_run: "told_inv s \<Longrightarrow> told_inv (run_frames cfg ts s)"
  by (induction ts arbitrary: s) (simp_all add: told_inv_process_frame)

text \<open>
  Claim C8. Over any sequence of \<open>process_frame\<close> calls, from any state of the tracker,
  the values that \<open>blink_count\<close> takes are non-decreasing; and the counts that a tracker
  tells its observers (the blink-rate monitor among them) from its construction on form a
  non-decreasing sequence.
\<close>

theorem C8_blink_count_monotone:
  "sorted (blink_count_history cfg ts s)
   \<and> blink_count (data s) \<le> blink_count (data (run_frames cfg ts s))
   \<and> (trace s = [] \<longrightarrow> sorted (blink_counts (trace (run_frames cfg ts s))))"
proof -
  have "trace s = [] \<Longrightarrow> sorted (blink_counts (trace (run_frames cfg ts s)))"
    using told_inv_run [of s cfg ts] by (simp add: told_inv_def)
  then show ?thesis
    using history_sorted run_frames_mono by simp
qed

theorem C8_blink_count_monotone_witness:
  "trace init_tracker = []
   \<and> sorted (blink_count_history default_configuration [open_tick, quiet_tick] init_tracker)
   \<and> sorted (blink_counts (trace
        (run_frames default_configuration [open_tick, quiet_tick] init_tracker)))"
  using C8_blink_count_monotone [of default_configuration "[open_tick, quiet_tick]"
      init_tracker]
  by (simp add: init_tracker_def)

section \<open>A minimum run length of zero\<close>

lemma frame_counter_nonneg_step:
  "0 \<le> frame_counter s \<Longrightarrow> 0 \<le> frame_counter (process_frame cfg t s)"
  by (simp add: process_frame_def Let_def update_frame_counter frame_simps
        split: provider_result.splits option.splits sum.splits prod.splits)

lemma frame_counter_nonneg_run:
  "0 \<le> frame_counter s \<Longrightarrow> 0 \<le> frame_counter (run_frames cfg ts s)"
  by (induction ts arbitrary: s) (simp_all add: frame_counter_nonneg_step)

text \<open>
  Claim C10. With \<open>CONSECUTIVE_FRAMES = 0\<close>, in any state \<open>s\<close> that a tracker reaches from
  a consecutive-frame counter of zero, a tick on which detection runs, both EARs are
  computed and their average is at or above the threshold increments \<open>blink_count\<close> by one
  and calls the blink callback of every observer with the new count, whether or not a
  sample below the threshold has ever occurred.
\<close>

theorem C10_zero_consecutive_frames:
  assumes "CONSECUTIVE_FRAMES cfg = 0" "frame_counter s0 = 0"
    and "s = run_frames cfg ts s0"
    and "should_process cfg s" "provider t = Detection l r"
    and "calculate_ear l = Inr el" "calculate_ear r = Inr er"
    and "fp_ge (fp_half (fp_add el er)) (EAR_THRESHOLD cfg)"
  shows "blink_count (data (process_frame cfg t s)) = blink_count (data s) + 1
       \<and> blink_counts (trace (process_frame cfg t s)) =
           blink_counts (trace s)
             @ replicate (length (observers s)) (blink_count (data s) + 1)"
proof -
  have "0 \<le> frame_counter s"
    using assms(2,3) frame_counter_nonneg_run [of s0 cfg ts] by simp
  moreover have "\<not> fp_lt (fp_half (fp_add el er)) (EAR_THRESHOLD cfg)"
    using assms(8) by (rule fp_ge_not_lt)
  ultimately show ?thesis
    using assms(1)
    by (simp add: process_frame_fresh_sample [OF assms(4-7)] update_blink_count
          update_blink_trace frame_simps)
qed

theorem C10_zero_consecutive_frames_witness:
  "CONSECUTIVE_FRAMES eager = 0 \<and> frame_counter watched = 0
   \<and> should_process eager watched
   \<and> fp_ge (fp_half (fp_add (Fin 1) (Fin 1))) (EAR_THRESHOLD eager)
   \<and> blink_count (data (process_frame eager open_tick watched)) = 1
   \<and> blink_counts (trace (process_frame eager open_tick watched)) = [1]"
proof -
  have a: "CONSECUTIVE_FRAMES eager = 0" "frame_counter watched = 0"
      "watched = run_frames eager [] watched" "should_process eager watched"
      "provider open_tick = Detection open_eye open_eye"
      "fp_ge (fp_half (fp_add (Fin 1) (Fin 1))) (EAR_THRESHOLD eager)"
    by (simp_all add: eager_def watched_def default_configuration_def init_tracker_def
          should_process_def open_tick_def)
  show ?thesis
    using C10_zero_consecutive_frames [OF a(1-5) calculate_ear_open_eye
        calculate_ear_open_eye a(6)] a
    by (simp add: watched_def init_tracker_def)
qed

section \<open>Properties of the blink detector\<close>

subsection \<open>The run at the end of a stream\<close>

lemma trailing_snoc: "trailing P (xs @ [x]) = (if P x then Suc (trailing P xs) else 0)"
  by (simp add: trailing_def)

lemma trailing_Nil: "trailing P [] = 0"
  by (simp add: trailing_def)

lemma trailing_le: "trailing P xs \<le> length xs"
  by (simp add: trailing_def) (metis length_rev length_takeWhile_le)

lemma trailing_all:
  "length xs - trailing P xs \<le> j \<Longrightarrow> j < length xs \<Longrightarrow> P (xs ! j)"
proof (induction xs arbitrary: j rule: rev_induct)
  case Nil
  then show ?case by simp
next
  case (snoc x xs)
  show ?case
  proof (cases "P x")
    case True
    show ?thesis
    proof (cases "j < length xs")
      case True
      with snoc \<open>P x\<close> show ?thesis
        using trailing_le [of P xs] by (simp add: trailing_snoc nth_append)
    next
      case False
      with snoc.prems \<open>P x\<close> show ?thesis by (simp add: nth_append)
    qed
  next
    case False
    with snoc.prems show ?thesis by (simp add: trailing_snoc)
  qed
qed

lemma trailing_stop:
  "trailing P xs < length xs \<Longrightarrow> \<not> P (xs ! (length xs - trailing P xs - 1))"
proof (induction xs rule: rev_induct)
  case Nil
  then show ?case by simp
next
  case (snoc x xs)
  show ?case
  proof (cases "P x")
    case True
    with snoc show ?thesis
      using trailing_le [of P xs] by (simp add: trailing_snoc nth_append)
  next
    case False
    then show ?thesis by (simp add: trailing_snoc)
  qed
qed

subsection \<open>Runs by positions, and how the set of runs grows with one more sample\<close>

lemma closed_run_index:
  "closed_run P Q xs i n =
     (0 < n \<and> i + n < length xs \<and> (\<forall>j. i \<le> j \<and> j < i + n \<longrightarrow> P (xs ! j))
      \<and> (i = 0 \<or> \<not> P (xs ! (i - 1))) \<and> Q (xs ! (i + n)))"
proof (cases "i + n < length xs")
  case False
  then show ?thesis by (simp add: closed_run_def)
next
  case True
  have "list_all P (take n (drop i xs)) = (\<forall>j. i \<le> j \<and> j < i + n \<longrightarrow> P (xs ! j))"
  proof
    assume a: "list_all P (take n (drop i xs))"
    show "\<forall>j. i \<le> j \<and> j < i + n \<longrightarrow> P (xs ! j)"
    proof (intro allI impI)
      fix j assume j: "i \<le> j \<and> j < i + n"
      then have lt: "j - i < n" and eq: "i + (j - i) = j" by auto
      then have "j - i < length (take n (drop i xs))" using True by simp
      with a have "P (take n (drop i xs) ! (j - i))" by (simp add: list_all_length)
      then show "P (xs ! j)" using lt eq True by simp
    qed
  next
    assume a: "\<forall>j. i \<le> j \<and> j < i + n \<longrightarrow> P (xs ! j)"
    show "list_all P (take n (drop i xs))"
      using a True by (simp add: list_all_length)
  qed
  then show ?thesis by (auto simp add: closed_run_def)
qed

lemma run_set_snoc_below:
  assumes "P x" "\<forall>y. Q y \<longrightarrow> \<not> P y"
  shows "run_set k P Q (xs @ [x]) = run_set k P Q xs"
  using assms
  apply (auto simp add: run_set_def closed_run_index nth_append)
  done

lemma run_set_snoc_old:
  "i + n < length xs \<Longrightarrow> closed_run P Q (xs @ [x]) i n = closed_run P Q xs i n"
  by (auto simp add: closed_run_index nth_append)

lemma run_set_snoc_last:
  assumes "i + n = length xs"
  shows "closed_run P Q (xs @ [x]) i n = (Q x \<and> 0 < n \<and> n = trailing P xs)"
proof -
  let ?c = "trailing P xs"
  have le: "?c \<le> length xs" by (rule trailing_le)
  have idx: "closed_run P Q (xs @ [x]) i n =
      (0 < n \<and> (\<forall>j. i \<le> j \<and> j < length xs \<longrightarrow> P (xs ! j))
       \<and> (i = 0 \<or> \<not> P (xs ! (i - 1))) \<and> Q x)"
    using assms by (auto simp add: closed_run_index nth_append)
  have "((\<forall>j. i \<le> j \<and> j < length xs \<longrightarrow> P (xs ! j)) \<and> (i = 0 \<or> \<not> P (xs ! (i - 1))))
        = (n = ?c)"
  proof
    assume a: "(\<forall>j. i \<le> j \<and> j < length xs \<longrightarrow> P (xs ! j)) \<and> (i = 0 \<or> \<not> P (xs ! (i - 1)))"
    show "n = ?c"
    proof (rule ccontr)
      assume "n \<noteq> ?c"
      then consider "?c < n" | "n < ?c" by linarith
      then show False
      proof cases
        case 1
        then have "?c < length xs" using assms by simp
        then have "\<not> P (xs ! (length xs - ?c - 1))" by (rule trailing_stop)
        moreover have "i \<le> length xs - ?c - 1 \<and> length xs - ?c - 1 < length xs"
          using 1 assms by auto
        ultimately show False using a by blast
      next
        case 2
        then have "i \<noteq> 0" "length xs - ?c \<le> i - 1" "i - 1 < length xs"
          using assms le by auto
        then show False using a trailing_all [of xs P "i - 1"] by blast
      qed
    qed
  next
    assume n: "n = ?c"
    have "\<forall>j. i \<le> j \<and> j < length xs \<longrightarrow> P (xs ! j)"
      using trailing_all [of xs P] assms n by auto
    moreover have "i = 0 \<or> \<not> P (xs ! (i - 1))"
    proof (cases "?c < length xs")
      case True
      then have "\<not> P (xs ! (length xs - ?c - 1))" by (rule trailing_stop)
      moreover have "length xs - ?c = i" using assms n by simp
      ultimately show ?thesis by simp
    next
      case False
      then show ?thesis using assms n le by simp
    qed
    ultimately show "(\<forall>j. i \<le> j \<and> j < length xs \<longrightarrow> P (xs ! j)) \<and> (i = 0 \<or> \<not> P (xs ! (i - 1)))"
      by simp
  qed
  then show ?thesis using idx by auto
qed

lemma run_set_bounded: "run_set k P Q xs \<subseteq> {..<length xs} \<times> {..<length xs}"
  by (auto simp add: run_set_def closed_run_def)

lemma run_set_finite: "finite (run_set k P Q xs)"
  using run_set_bounded by (rule finite_subset) simp

lemma run_set_snoc_closing:
  assumes "Q x"
  shows "run_set k P Q (xs @ [x]) =
     run_set k P Q xs
       \<union> (if 0 < trailing P xs \<and> k \<le> int (trailing P xs)
          then {(length xs - trailing P xs, trailing P xs)} else {})"
proof -
  have le: "trailing P xs \<le> length xs" by (rule trailing_le)
  have "(i, n) \<in> run_set k P Q (xs @ [x]) \<longleftrightarrow>
        (i, n) \<in> run_set k P Q xs
          \<union> (if 0 < trailing P xs \<and> k \<le> int (trailing P xs)
             then {(length xs - trailing P xs, trailing P xs)} else {})" for i n
  proof (cases "i + n < length xs")
    case True
    then show ?thesis
      using le by (auto simp add: run_set_def run_set_snoc_old)
  next
    case False
    show ?thesis
    proof (cases "i + n = length xs")
      case True
      have "(i, n) \<notin> run_set k P Q xs"
        using True by (simp add: run_set_def closed_run_def)
      then show ?thesis
        using True le assms by (auto simp add: run_set_def run_set_snoc_last [OF True])
    next
      case False
      with \<open>\<not> i + n < length xs\<close> have "length xs < i + n" by simp
      then show ?thesis
        using le by (auto simp add: run_set_def closed_run_def)
    qed
  qed
  then show ?thesis by auto
qed

lemma card_run_set_snoc_closing:
  assumes "Q x"
  shows "card (run_set k P Q (xs @ [x])) =
     card (run_set k P Q xs)
       + (if 0 < trailing P xs \<and> k \<le> int (trailing P xs) then 1 else 0)"
proof -
  have "(length xs - trailing P xs, trailing P xs) \<notin> run_set k P Q xs"
    using trailing_le [of P xs] by (simp add: run_set_def closed_run_def)
  then show ?thesis
    using run_set_snoc_closing [of Q x k P xs] assms by (simp add: run_set_finite)
qed

lemma length_qualifying_runs: "length (qualifying_runs k P Q xs) = card (run_set k P Q xs)"
proof -
  have "distinct (qualifying_runs k P Q xs)"
    by (simp add: qualifying_runs_def distinct_product)
  moreover have "set (qualifying_runs k P Q xs) = run_set k P Q xs"
    using run_set_bounded [of k P Q xs] by (auto simp add: qualifying_runs_def run_set_def)
  ultimately show ?thesis
    by (metis distinct_card)
qed

subsection \<open>The detector counts the runs\<close>

lemma feed_samples_append:
  "feed_samples cfg (xs @ ys) s = feed_samples cfg ys (feed_samples cfg xs s)"
  by (induction xs arbitrary: s) simp_all

lemma feed_sample_frame_counter:
  "frame_counter (feed_sample cfg x s) =
     (if below_threshold cfg x then frame_counter s + 1 else 0)"
  by (simp add: feed_sample_def update_frame_counter below_threshold_def)

lemma feed_sample_blink_count:
  "blink_count (data (feed_sample cfg x s)) =
     blink_count (data s)
       + (if \<not> below_threshold cfg x \<and> CONSECUTIVE_FRAMES cfg \<le> frame_counter s then 1 else 0)"
  by (simp add: feed_sample_def update_blink_count below_threshold_def)

lemma feed_sample_callbacks:
  "length (blink_counts (trace (feed_sample cfg x s))) =
     length (blink_counts (trace s))
       + (if \<not> below_threshold cfg x \<and> CONSECUTIVE_FRAMES cfg \<le> frame_counter s
          then length (observers s) else 0)"
  by (simp add: feed_sample_def update_blink_trace below_threshold_def)

lemma feed_sample_observers: "observers (feed_sample cfg x s) = observers s"
  by (simp add: feed_sample_def update_observers)

lemma feed_samples_observers: "observers (feed_samples cfg xs s) = observers s"
  by (induction xs arbitrary: s) (simp_all add: feed_sample_observers)

lemma feed_samples_runs:
  assumes "1 \<le> CONSECUTIVE_FRAMES cfg" "frame_counter s = 0"
  shows "frame_counter (feed_samples cfg xs s) = int (trailing (below_threshold cfg) xs)
     \<and> blink_count (data (feed_samples cfg xs s)) =
         blink_count (data s)
           + int (card (run_set (CONSECUTIVE_FRAMES cfg) (below_threshold cfg)
                          (\<lambda>x. \<not> below_threshold cfg x) xs))
     \<and> length (blink_counts (trace (feed_samples cfg xs s))) =
         length (blink_counts (trace s))
           + length (observers s)
               * card (run_set (CONSECUTIVE_FRAMES cfg) (below_threshold cfg)
                         (\<lambda>x. \<not> below_threshold cfg x) xs)"
proof (induction xs rule: rev_induct)
  case Nil
  have "run_set (CONSECUTIVE_FRAMES cfg) (below_threshold cfg)
          (\<lambda>x. \<not> below_threshold cfg x) [] = {}"
    by (simp add: run_set_def closed_run_def)
  then show ?case
    using assms(2) by (simp add: trailing_Nil)
next
  case (snoc x xs)
  show ?case
  proof (cases "below_threshold cfg x")
    case True
    have "run_set (CONSECUTIVE_FRAMES cfg) (below_threshold cfg)
            (\<lambda>x. \<not> below_threshold cfg x) (xs @ [x]) =
          run_set (CONSECUTIVE_FRAMES cfg) (below_threshold cfg)
            (\<lambda>x. \<not> below_threshold cfg x) xs"
      using True by (intro run_set_snoc_below) simp_all
    then show ?thesis
      using snoc True
      by (simp add: feed_samples_append feed_sample_frame_counter feed_sample_blink_count
            feed_sample_callbacks trailing_snoc)
  next
    case False
    have "card (run_set (CONSECUTIVE_FRAMES cfg) (below_threshold cfg)
            (\<lambda>x. \<not> below_threshold cfg x) (xs @ [x])) =
          card (run_set (CONSECUTIVE_FRAMES cfg) (below_threshold cfg)
            (\<lambda>x. \<not> below_threshold cfg x) xs)
          + (if CONSECUTIVE_FRAMES cfg \<le> int (trailing (below_threshold cfg) xs) then 1 else 0)"
      using card_run_set_snoc_closing [of "\<lambda>x. \<not> below_threshold cfg x" x
          "CONSECUTIVE_FRAMES cfg" "below_threshold cfg" xs] False assms(1)
      by auto
    then show ?thesis
      using snoc False
      by (simp add: feed_samples_append feed_sample_frame_counter feed_sample_blink_count
            feed_sample_callbacks feed_samples_observers trailing_snoc)
  qed
qed

lemma feed_samples_open_run:
  "below_threshold cfg lo \<Longrightarrow>
   blink_count (data (feed_samples cfg (replicate n lo) s)) = blink_count (data s)
   \<and> frame_counter (feed_samples cfg (replicate n lo) s) = frame_counter s + int n"
  by (induction n arbitrary: s)
     (simp_all add: feed_sample_blink_count feed_sample_frame_counter)

lemma no_nan_closers:
  assumes "NaN \<notin> set xs"
  shows "qualifying_runs k (below_threshold cfg) (\<lambda>x. \<not> below_threshold cfg x) xs =
         qualifying_runs k (below_threshold cfg) (at_or_above_threshold cfg) xs"
proof -
  have "(\<not> below_threshold cfg (xs ! j)) = at_or_above_threshold cfg (xs ! j)"
    if "j < length xs" for j
  proof -
    have "xs ! j \<noteq> NaN" using assms that by (metis nth_mem)
    then show ?thesis
      by (cases "xs ! j") (auto simp add: below_threshold_def at_or_above_threshold_def)
  qed
  then have "closed_run (below_threshold cfg) (\<lambda>x. \<not> below_threshold cfg x) xs i n =
             closed_run (below_threshold cfg) (at_or_above_threshold cfg) xs i n" for i n
    by (auto simp add: closed_run_def)
  then show ?thesis
    by (simp add: qualifying_runs_def)
qed

lemma spec_blinks_example: "spec_blinks default_configuration spec_example = 1"
  by (simp add: spec_blinks_def qualifying_runs_def closed_run_def spec_example_def
      default_configuration_def below_threshold_def at_or_above_threshold_def)

text \<open>
  Claim C1, as the code has it. For \<open>CONSECUTIVE_FRAMES \<ge> 1\<close> and a detector whose counter
  is zero, as at construction, the increase of \<open>blink_count\<close> over any stream of fresh
  samples, and the number of blink callbacks each observer receives, is the number of
  maximal runs of samples strictly below the threshold that have at least
  \<open>CONSECUTIVE_FRAMES\<close> samples and are followed by a sample that is not below the threshold;
  on a stream without NaN this is the specification's count, where the following sample is
  at or above the threshold. A run of \<open>n\<close> samples followed by such a sample counts exactly
  when \<open>CONSECUTIVE_FRAMES \<le> n\<close>, and a run that is open when the stream ends adds nothing.
\<close>

theorem C1_blink_runs:
  assumes "1 \<le> CONSECUTIVE_FRAMES cfg" "frame_counter s = 0"
  shows "blink_count (data (feed_samples cfg xs s)) =
           blink_count (data s) + int (closed_blinks cfg xs)
       \<and> length (blink_counts (trace (feed_samples cfg xs s))) =
           length (blink_counts (trace s)) + length (observers s) * closed_blinks cfg xs
       \<and> (NaN \<notin> set xs \<longrightarrow> closed_blinks cfg xs = spec_blinks cfg xs)
       \<and> (below_threshold cfg lo \<and> \<not> below_threshold cfg hi \<longrightarrow>
            blink_count (data (feed_samples cfg (replicate n lo @ [hi]) s)) =
              blink_count (data s) + (if CONSECUTIVE_FRAMES cfg \<le> int n then 1 else 0))
       \<and> (below_threshold cfg lo \<longrightarrow>
            blink_count (data (feed_samples cfg (xs @ replicate n lo) s)) =
              blink_count (data (feed_samples cfg xs s)))"
proof (intro conjI impI)
  show "blink_count (data (feed_samples cfg xs s)) =
           blink_count (data s) + int (closed_blinks cfg xs)"
    using feed_samples_runs [OF assms, of xs]
    by (simp add: closed_blinks_def length_qualifying_runs)
  show "length (blink_counts (trace (feed_samples cfg xs s))) =
           length (blink_counts (trace s)) + length (observers s) * closed_blinks cfg xs"
    using feed_samples_runs [OF assms, of xs]
    by (simp add: closed_blinks_def length_qualifying_runs)
  show "closed_blinks cfg xs = spec_blinks cfg xs" if "NaN \<notin> set xs"
    using that by (simp add: closed_blinks_def spec_blinks_def no_nan_closers)
  show "blink_count (data (feed_samples cfg (replicate n lo @ [hi]) s)) =
          blink_count (data s) + (if CONSECUTIVE_FRAMES cfg \<le> int n then 1 else 0)"
    if "below_threshold cfg lo \<and> \<not> below_threshold cfg hi"
    using that assms(2) feed_samples_open_run [of cfg lo n s]
    by (simp add: feed_samples_append feed_sample_blink_count)
  show "blink_count (data (feed_samples cfg (xs @ replicate n lo) s)) =
          blink_count (data (feed_samples cfg xs s))"
    if "below_threshold cfg lo"
    using that feed_samples_open_run [of cfg lo n "feed_samples cfg xs s"]
    by (simp add: feed_samples_append)
qed

theorem C1_blink_runs_witness:
  "1 \<le> CONSECUTIVE_FRAMES default_configuration \<and> frame_counter watched = 0
   \<and> NaN \<notin> set spec_example
   \<and> blink_count (data (feed_samples default_configuration spec_example watched)) = 1
   \<and> length (blink_counts (trace (feed_samples default_configuration spec_example watched))) = 1
   \<and> below_threshold default_configuration (Fin (1 / 10))
   \<and> \<not> below_threshold default_configuration (Fin (3 / 10))
   \<and> blink_count (data (feed_samples default_configuration
        (replicate 2 (Fin (1 / 10)) @ [Fin (3 / 10)]) watched)) = 1
   \<and> blink_count (data (feed_samples default_configuration
        (replicate 1 (Fin (1 / 10)) @ [Fin (3 / 10)]) watched)) = 0
   \<and> blink_count (data (feed_samples default_configuration
        (spec_example @ replicate 5 (Fin (1 / 10))) watched)) = 1"
proof -
  have a: "1 \<le> CONSECUTIVE_FRAMES default_configuration" "frame_counter watched = 0"
    by (simp_all add: default_configuration_def watched_def init_tracker_def)
  have b: "NaN \<notin> set spec_example"
      "below_threshold default_configuration (Fin (1 / 10))"
      "\<not> below_threshold default_configuration (Fin (3 / 10))"
      "blink_count (data watched) = 0" "trace watched = []" "length (observers watched) = 1"
      "CONSECUTIVE_FRAMES default_configuration = 2"
    by (simp_all add: spec_example_def below_threshold_def default_configuration_def
          watched_def init_tracker_def)
  show ?thesis
    using C1_blink_runs [OF a, of spec_example "Fin (1 / 10)" "Fin (3 / 10)" 2]
      C1_blink_runs [OF a, of spec_example "Fin (1 / 10)" "Fin (3 / 10)" 1]
      C1_blink_runs [OF a, of spec_example "Fin (1 / 10)" "Fin (3 / 10)" 5]
      a b spec_blinks_example
    by simp
qed

text \<open>
  With \<open>CONSECUTIVE_FRAMES = 0\<close> a single sample above the threshold is counted as a blink
  though the stream has no run; and with the default of two, a NaN after two samples below
  the threshold closes their run though it is not at or above the threshold.
\<close>

theorem C1_blink_runs_counterexample:
  "blink_count (data (feed_samples eager [Fin (3 / 10)] init_tracker))
     - blink_count (data init_tracker) = 1
   \<and> spec_blinks eager [Fin (3 / 10)] = 0
   \<and> blink_count (data (feed_samples default_configuration
        [Fin (1 / 10), Fin (1 / 10), NaN] init_tracker))
     - blink_count (data init_tracker) = 1
   \<and> spec_blinks default_configuration [Fin (1 / 10), Fin (1 / 10), NaN] = 0"
  by (simp add: feed_sample_blink_count feed_sample_frame_counter below_threshold_def
      at_or_above_threshold_def eager_def default_configuration_def init_tracker_def
      spec_blinks_def qualifying_runs_def closed_run_def)

section \<open>Properties of the blink-rate monitor\<close>

lemma spaced_sorted_wrt: "spaced d ts = sorted_wrt (\<lambda>t u. d \<le> u - t) ts"
  by (induction ts) (simp_all add: list_all_iff)

lemma alert_times_append: "alert_times (xs @ ys) = alert_times xs @ alert_times ys"
  by (induction xs rule: alert_times.induct) simp_all

lemma send_suppressed:
  "last_notification_time m = Some t \<Longrightarrow> clock_send c - t < notification_cooldown m \<Longrightarrow>
   send_low_blink_notification c rate m = m"
  by (simp add: send_low_blink_notification_def)

lemma send_attempted:
  assumes "last_notification_time m = None
           \<or> (\<exists>t. last_notification_time m = Some t \<and> notification_cooldown m \<le> clock_send c - t)"
  shows "send_low_blink_notification c rate m =
     (case sink c of
        Returns \<Rightarrow> m\<lparr>last_notification_time := Some (clock_send c),
                      sink_log := sink_log m @ [Notified (clock_send c) rate]\<rparr>
      | Raises e \<Rightarrow> m\<lparr>sink_log := sink_log m @ [Notify_failed (clock_send c) e]\<rparr>)"
  using assms by (auto simp add: send_low_blink_notification_def Let_def split: option.splits)

lemma check_evaluates:
  assumes "window_due cfg c m"
  shows "check_blink_rate_and_notify cfg c m =
     Inr ((if window_rate c m < real_of_int (MIN_BLINKS_PER_MINUTE cfg)
           then send_low_blink_notification c (window_rate c m) m else m)
          \<lparr>last_blink_count := current_blink_count c, last_check_time := clock_check c\<rparr>)"
  using assms by (simp add: check_blink_rate_and_notify_def window_due_def window_rate_def Let_def)

lemma cooldown_inv_send: "cooldown_inv m \<Longrightarrow> cooldown_inv (send_low_blink_notification c rate m)"
  apply (auto simp add: cooldown_inv_def send_low_blink_notification_def Let_def spaced_sorted_wrt
      alert_times_append sorted_wrt_append list_all_iff
      split: option.splits outcome.splits)
  done

lemma cooldown_inv_window:
  "cooldown_inv (m\<lparr>last_blink_count := a, last_check_time := b\<rparr>) = cooldown_inv m"
  by (simp add: cooldown_inv_def split: option.splits)

lemma monitor_step_cases:
  "monitor_step cfg c m = m
   \<or> monitor_step cfg c m = m\<lparr>last_blink_count := current_blink_count c, last_check_time := clock_check c\<rparr>
   \<or> (\<exists>rate. monitor_step cfg c m =
        (send_low_blink_notification c rate m)
          \<lparr>last_blink_count := current_blink_count c, last_check_time := clock_check c\<rparr>)"
  by (auto simp add: monitor_step_def check_blink_rate_and_notify_def Let_def)

lemma cooldown_inv_step: "cooldown_inv m \<Longrightarrow> cooldown_inv (monitor_step cfg c m)"
  using monitor_step_cases [of cfg c m] cooldown_inv_send [of m c]
  by (auto simp add: cooldown_inv_window)

lemma cooldown_inv_run: "cooldown_inv m \<Longrightarrow> cooldown_inv (run_checks cfg cs m)"
  by (induction cs arbitrary: m) (simp_all add: cooldown_inv_step)

lemma send_cooldown: "notification_cooldown (send_low_blink_notification c rate m) = notification_cooldown m"
  by (simp add: send_low_blink_notification_def Let_def split: option.splits outcome.splits)

lemma step_cooldown: "notification_cooldown (monitor_step cfg c m) = notification_cooldown m"
  using monitor_step_cases [of cfg c m] by (auto simp add: send_cooldown)

lemma run_cooldown: "notification_cooldown (run_checks cfg cs m) = notification_cooldown m"
  by (induction cs arbitrary: m) (simp_all add: step_cooldown)

lemma cooldown_inv_init: "cooldown_inv (init_manager now)"
  by (simp add: cooldown_inv_def init_manager_def spaced_sorted_wrt)

text \<open>
  Claim C4. When a call evaluates a window whose rate is below \<open>MIN_BLINKS_PER_MINUTE\<close>
  and the previous alert was delivered less than the cooldown before, the call only closes
  the window: the notification sink is not called, however low the rate. When there has
  been no alert, or the cooldown has elapsed, the sink is called, and if it returns the
  alert is recorded with its instant. Hence, over any sequence of calls on a manager from
  its construction (cooldown five minutes), any two delivered alerts are at least the
  cooldown apart.
\<close>

theorem C4_cooldown:
  "(window_due cfg c m \<and> window_rate c m < real_of_int (MIN_BLINKS_PER_MINUTE cfg)
      \<and> last_notification_time m = Some t \<and> clock_send c - t < notification_cooldown m \<longrightarrow>
      check_blink_rate_and_notify cfg c m =
        Inr (m\<lparr>last_blink_count := current_blink_count c, last_check_time := clock_check c\<rparr>))
   \<and> (window_due cfg c m \<and> window_rate c m < real_of_int (MIN_BLINKS_PER_MINUTE cfg)
      \<and> (last_notification_time m = None
          \<or> (\<exists>u. last_notification_time m = Some u \<and> notification_cooldown m \<le> clock_send c - u)) \<longrightarrow>
      check_blink_rate_and_notify cfg c m =
        Inr ((case sink c of
                Returns \<Rightarrow> m\<lparr>last_notification_time := Some (clock_send c),
                      sink_log := sink_log m @ [Notified (clock_send c) (window_rate c m)]\<rparr>
              | Raises e \<Rightarrow> m\<lparr>sink_log := sink_log m @ [Notify_failed (clock_send c) e]\<rparr>)
             \<lparr>last_blink_count := current_blink_count c, last_check_time := clock_check c\<rparr>))
   \<and> spaced 300 (alert_times (sink_log (run_checks cfg cs (init_manager now))))"
proof (intro conjI impI)
  assume h: "window_due cfg c m \<and> window_rate c m < real_of_int (MIN_BLINKS_PER_MINUTE cfg)
      \<and> last_notification_time m = Some t \<and> clock_send c - t < notification_cooldown m"
  then show "check_blink_rate_and_notify cfg c m =
        Inr (m\<lparr>last_blink_count := current_blink_count c, last_check_time := clock_check c\<rparr>)"
    by (simp add: check_evaluates send_suppressed)
next
  assume h: "window_due cfg c m \<and> window_rate c m < real_of_int (MIN_BLINKS_PER_MINUTE cfg)
      \<and> (last_notification_time m = None
          \<or> (\<exists>u. last_notification_time m = Some u \<and> notification_cooldown m \<le> clock_send c - u))"
  then show "check_blink_rate_and_notify cfg c m =
        Inr ((case sink c of
                Returns \<Rightarrow> m\<lparr>last_notification_time := Some (clock_send c),
                      sink_log := sink_log m @ [Notified (clock_send c) (window_rate c m)]\<rparr>
              | Raises e \<Rightarrow> m\<lparr>sink_log := sink_log m @ [Notify_failed (clock_send c) e]\<rparr>)
             \<lparr>last_blink_count := current_blink_count c, last_check_time := clock_check c\<rparr>)"
    by (simp add: check_evaluates send_attempted)
next
  have "cooldown_inv (run_checks cfg cs (init_manager now))"
    by (rule cooldown_inv_run [OF cooldown_inv_init])
  moreover have "notification_cooldown (run_checks cfg cs (init_manager now)) = 300"
    by (simp add: run_cooldown init_manager_def)
  ultimately show "spaced 300 (alert_times (sink_log (run_checks cfg cs (init_manager now))))"
    by (simp add: cooldown_inv_def)
qed


theorem C4_cooldown_witness:
  "window_due default_configuration first_call (init_manager 0)
   \<and> window_rate first_call (init_manager 0)
       < real_of_int (MIN_BLINKS_PER_MINUTE default_configuration)
   \<and> last_notification_time (init_manager 0) = None
   \<and> check_blink_rate_and_notify default_configuration first_call (init_manager 0) = Inr alerted
   \<and> window_due default_configuration second_call alerted
   \<and> window_rate second_call alerted
       < real_of_int (MIN_BLINKS_PER_MINUTE default_configuration)
   \<and> last_notification_time alerted = Some 60
   \<and> clock_send second_call - 60 < notification_cooldown alerted
   \<and> check_blink_rate_and_notify default_configuration second_call alerted =
       Inr (alerted\<lparr>last_blink_count := 5, last_check_time := 120\<rparr>)
   \<and> spaced 300 (alert_times (sink_log
        (run_checks default_configuration [first_call, second_call, third_call]
           (init_manager 0))))"
  using C4_cooldown [of default_configuration first_call "init_manager 0" 0
      "[first_call, second_call, third_call]" 0]
    C4_cooldown [of default_configuration second_call alerted 60]
  by (simp add: window_due_def window_rate_def default_configuration_def init_manager_def
        first_call_def second_call_def alerted_def)

text \<open>The three calls: the first and the third alert, the second is suppressed.\<close>

lemma three_calls:
  "alert_times (sink_log
     (run_checks default_configuration [first_call, second_call, third_call]
        (init_manager 0))) = [60, 400]"
  by (simp add: monitor_step_def check_blink_rate_and_notify_def
        send_low_blink_notification_def Let_def default_configuration_def init_manager_def
        first_call_def second_call_def third_call_def)

end
